theory Spec2Isabelle
  imports Main "HOL-Library.Char_ord" "HOL-Library.List_Lexorder"
begin

section \<open>JavaScript strings\<close>

text \<open>
  The commands of \<^verbatim>\<open>config/commands.js\<close> work on JavaScript strings. A string is modelled
  as a list of 8-bit code units (Latin-1); the built-in string methods the two commands
  use are written out below. Code units above 255 are outside the model, and the two
  Latin-1 letters whose capital lies above 255 (code units 0xB5 and 0xFF) are left unchanged
  by \<open>toUpperCase\<close>.
\<close>

definition isWhiteSpace :: "char \<Rightarrow> bool" where
  \<comment> \<open>the WhiteSpace and LineTerminator code units below 256\<close>
  "isWhiteSpace c =
     (c \<in> set [CHR 0x09, CHR 0x0A, CHR 0x0B, CHR 0x0C, CHR 0x0D, CHR 0x20, CHR 0xA0])"

definition trim :: "string \<Rightarrow> string" where
  "trim s = rev (dropWhile isWhiteSpace (rev (dropWhile isWhiteSpace s)))"

definition isUpperCase :: "char \<Rightarrow> bool" where
  "isUpperCase c =
     ((CHR ''A'' \<le> c \<and> c \<le> CHR ''Z'') \<or> (CHR 0xC0 \<le> c \<and> c \<le> CHR 0xDE \<and> c \<noteq> CHR 0xD7))"

definition isLowerCase :: "char \<Rightarrow> bool" where
  "isLowerCase c =
     ((CHR ''a'' \<le> c \<and> c \<le> CHR ''z'') \<or> (CHR 0xE0 \<le> c \<and> c \<le> CHR 0xFE \<and> c \<noteq> CHR 0xF7))"

definition toLower :: "char \<Rightarrow> char" where
  \<comment> \<open>a capital and its small letter differ by 32, which is bit 5\<close>
  "toLower c =
     (if isUpperCase c
      then (case c of Char b0 b1 b2 b3 b4 b5 b6 b7 \<Rightarrow> Char b0 b1 b2 b3 b4 True b6 b7)
      else c)"

definition toUpper :: "char \<Rightarrow> string" where
  \<comment> \<open>the sharp s (0xDF) becomes two letters\<close>
  "toUpper c =
     (if isLowerCase c
      then (case c of Char b0 b1 b2 b3 b4 b5 b6 b7 \<Rightarrow> [Char b0 b1 b2 b3 b4 False b6 b7])
      else if c = CHR 0xDF then ''SS''
      else [c])"

definition toLowerCase :: "string \<Rightarrow> string" where
  "toLowerCase s = map toLower s"

definition toUpperCase :: "string \<Rightarrow> string" where
  "toUpperCase s = concat (map toUpper s)"

fun indexOf :: "string \<Rightarrow> string \<Rightarrow> nat option" where
  \<comment> \<open>\<open>s.indexOf(pat)\<close>: the first position where \<open>pat\<close> starts; \<open>None\<close> is -1\<close>
  "indexOf [] pat = (if pat = [] then Some 0 else None)"
| "indexOf (c # cs) pat =
     (if take (length pat) (c # cs) = pat then Some 0
      else map_option Suc (indexOf cs pat))"

definition charAt :: "string \<Rightarrow> nat \<Rightarrow> string" where
  "charAt s i = take 1 (drop i s)"

definition slice :: "string \<Rightarrow> nat \<Rightarrow> nat \<Rightarrow> string" where
  \<comment> \<open>\<open>s.slice(b, e)\<close> for non-negative \<open>b\<close> and \<open>e\<close>\<close>
  "slice s b e = drop b (take e s)"

definition substr :: "string \<Rightarrow> nat \<Rightarrow> nat \<Rightarrow> string" where
  \<comment> \<open>\<open>s.substr(b, n)\<close>\<close>
  "substr s b n = take n (drop b s)"

fun split_comma :: "string \<Rightarrow> string list" where
  \<comment> \<open>\<open>s.split(',')\<close>\<close>
  "split_comma [] = [[]]"
| "split_comma (c # cs) =
     (if c = CHR '','' then [] # split_comma cs
      else (case split_comma cs of [] \<Rightarrow> [[c]] | w # ws \<Rightarrow> (c # w) # ws))"

fun join :: "string list \<Rightarrow> string \<Rightarrow> string" where
  \<comment> \<open>\<open>xs.join(sep)\<close>\<close>
  "join [] sep = []"
| "join [x] sep = x"
| "join (x # y # ys) sep = x @ sep @ join (y # ys) sep"

definition digitValue :: "char \<Rightarrow> nat option" where
  "digitValue c =
     map_of (zip ''0123456789abcdefABCDEF''
        [0, 1, 2, 3, 4, 5, 6, 7, 8, 9, 10, 11, 12, 13, 14, 15, 10, 11, 12, 13, 14, 15]) c"

definition isDigit :: "nat \<Rightarrow> char \<Rightarrow> bool" where
  "isDigit R c = (case digitValue c of None \<Rightarrow> False | Some d \<Rightarrow> d < R)"

definition digitsValue :: "nat \<Rightarrow> string \<Rightarrow> nat" where
  \<comment> \<open>the number a string of digits denotes in radix \<open>R\<close>\<close>
  "digitsValue R Z = foldl (\<lambda>a c. a * R + the (digitValue c)) 0 Z"

definition parseInt :: "string \<Rightarrow> int option" where
  \<comment> \<open>\<open>parseInt(s)\<close> with no radix; \<open>None\<close> is NaN. The value is exact here where
      JavaScript rounds to a double; the rounding never moves a number across 6.\<close>
  "parseInt s =
     (let S = dropWhile isWhiteSpace s;
          neg = (take 1 S = ''-'');
          S1 = (if take 1 S = ''+'' \<or> take 1 S = ''-'' then drop 1 S else S);
          hex = (take 2 S1 = ''0x'' \<or> take 2 S1 = ''0X'');
          R = (if hex then 16 else 10);
          S2 = (if hex then drop 2 S1 else S1);
          Z = takeWhile (isDigit R) S2
      in if Z = [] then None
         else Some ((if neg then - 1 else 1) * int (digitsValue R Z)))"

fun show_nat :: "nat \<Rightarrow> string" where
  \<comment> \<open>a non-negative integer as a property name or in a string concatenation\<close>
  "show_nat n =
     (if n < 10 then [''0123456789'' ! n]
      else show_nat (n div 10) @ [''0123456789'' ! (n mod 10)])"

declare show_nat.simps [simp del]

section \<open>Objects used as sets\<close>

text \<open>
  \<open>dexsearch\<close> keeps each search category in a plain object: a member is a property
  with value 1, and the property \<open>count\<close> of the same object counts the tokens.
  An object is the list of its own properties in insertion order. The operator \<open>in\<close>
  also sees the properties every object inherits.
\<close>

type_synonym jsobj = "(string \<times> nat) list"

definition Object_prototype :: "string list" where
  "Object_prototype =
     [''constructor'', ''toString'', ''toLocaleString'', ''valueOf'', ''hasOwnProperty'',
      ''isPrototypeOf'', ''propertyIsEnumerable'', ''__proto__'', ''__defineGetter__'',
      ''__defineSetter__'', ''__lookupGetter__'', ''__lookupSetter__'']"

definition has_property :: "string \<Rightarrow> string list \<Rightarrow> bool" where
  \<comment> \<open>\<open>k in obj\<close> for an object with the own property names \<open>ks\<close>\<close>
  "has_property k ks = (k \<in> set ks \<or> k \<in> set Object_prototype)"

definition js_in :: "string \<Rightarrow> jsobj \<Rightarrow> bool" where
  \<comment> \<open>\<open>k in obj\<close>\<close>
  "js_in k obj = has_property k (map fst obj)"

definition isArrayIndex :: "string \<Rightarrow> bool" where
  \<comment> \<open>a canonical array index: decimal, no leading zero, below \<open>2^32 - 1\<close>\<close>
  "isArrayIndex k =
     (k \<noteq> [] \<and> list_all (isDigit 10) k \<and> (k = ''0'' \<or> take 1 k \<noteq> ''0'') \<and>
      digitsValue 10 k < 4294967295)"

definition js_keys :: "jsobj \<Rightarrow> string list" where
  \<comment> \<open>the order of \<open>for (k in obj)\<close>: array indices ascending, then the other names
      in insertion order\<close>
  "js_keys obj =
     (let ks = map fst obj
      in sort_key (digitsValue 10) (filter isArrayIndex ks)
         @ filter (\<lambda>k. \<not> isArrayIndex k) ks)"

definition js_get :: "jsobj \<Rightarrow> string \<Rightarrow> nat option" where
  \<comment> \<open>\<open>obj.count\<close>: \<open>None\<close> is undefined (no object here inherits a \<open>count\<close>)\<close>
  "js_get obj k = map_of obj k"

fun js_update :: "string \<Rightarrow> nat \<Rightarrow> jsobj \<Rightarrow> jsobj" where
  "js_update k v [] = [(k, v)]"
| "js_update k v (p # ps) = (if fst p = k then (k, v) # ps else p # js_update k v ps)"

definition js_set :: "string \<Rightarrow> nat \<Rightarrow> jsobj \<Rightarrow> jsobj" where
  \<comment> \<open>\<open>obj[k] = v\<close>; assigning a number to \<open>__proto__\<close> creates no property\<close>
  "js_set k v obj = (if k = ''__proto__'' then obj else js_update k v obj)"

definition falsy :: "nat option \<Rightarrow> bool" where
  \<comment> \<open>\<open>!obj.count\<close>\<close>
  "falsy v = (v = None \<or> v = Some 0)"

definition positive :: "nat option \<Rightarrow> bool" where
  \<comment> \<open>\<open>obj.count > 0\<close>\<close>
  "positive v = (case v of None \<Rightarrow> False | Some n \<Rightarrow> 0 < n)"

definition js_incr :: "string \<Rightarrow> jsobj \<Rightarrow> jsobj" where
  \<comment> \<open>\<open>obj.count++\<close>; the source never increments an undefined count (that would give
      NaN), every increment follows an assignment to the same property\<close>
  "js_incr k obj = js_set k (case js_get obj k of None \<Rightarrow> 0 | Some n \<Rightarrow> n + 1) obj"

definition members :: "jsobj \<Rightarrow> string list" where
  \<comment> \<open>the own property names other than the counter\<close>
  "members obj = filter (\<lambda>k. k \<noteq> ''count'') (map fst obj)"

section \<open>The data the commands read\<close>

text \<open>
  \<open>Tools\<close> (the game data and the legality engine) and the command context \<open>this\<close> are
  not part of \<^verbatim>\<open>config/commands.js\<close>; they are parameters of the model. A move or an
  ability is an object with the fields the commands read, \<open>toString\<close> being what the
  object becomes when it is used as a property name or concatenated to a string.
\<close>

record entity =
  exists :: bool
  id' :: string
  name :: string

record effect = entity +
  toString :: string

record template = entity +
  species :: string
  types :: "string list"
  tier :: string
  color :: string
  abilities :: "string list"
  gen :: nat
  maleOnlyHidden :: bool

record lsetData =
  level :: "nat option"
  noPokebank :: bool
  sources :: "string list option"
  sourcesBefore :: nat

record tools =
  getMove :: "string \<Rightarrow> effect"
  getAbility :: "string \<Rightarrow> effect"
  getTemplate :: "string \<Rightarrow> template"
  checkLearnset :: "effect \<Rightarrow> template \<Rightarrow> lsetData \<Rightarrow> bool \<times> lsetData"
  Pokedex :: "string list"
  TypeChart :: "string list"

record cmdcontext =
  canBroadcast :: bool
  broadcasting :: bool

text \<open>
  Two more things come from outside the file: the global function \<open>string\<close>, which the
  command applies to the number of hidden results, and the order in which
  \<open>Array.prototype.sort\<close> leaves an array when the comparator answers at random.
\<close>

record globals =
  string :: "int \<Rightarrow> string"
  sort_random :: "string list \<Rightarrow> string list"

datatype reply =
    NoReply
  | Parse string
  | SendReply string
  | SendReplyBox string

section \<open>dexsearch: classifying the tokens\<close>

record query =
  moves :: jsobj
  tiers :: jsobj
  colours :: jsobj
  ability :: jsobj
  gens :: jsobj
  types' :: jsobj
  count :: nat
  showAll :: bool

definition allTiers :: jsobj where
  "allTiers = [(''uber'', 1), (''ou'', 1), (''uu'', 1), (''ru'', 1), (''nu'', 1), (''lc'', 1),
               (''cap'', 1), (''bl'', 1), (''bl2'', 1), (''nfe'', 1), (''limbo'', 1)]"

definition allColours :: jsobj where
  "allColours = [(''green'', 1), (''red'', 1), (''blue'', 1), (''white'', 1), (''brown'', 1),
                 (''yellow'', 1), (''purple'', 1), (''pink'', 1), (''gray'', 1), (''black'', 1)]"

definition empty_query :: query where
  "empty_query = \<lparr>moves = [], tiers = [], colours = [], ability = [], gens = [], types' = [],
                   count = 0, showAll = False\<rparr>"

definition dquote :: string where
  "dquote = [CHR 0x22]"

definition broadcast_all_message :: string where
  "broadcast_all_message = ''A search with the parameter '' @ dquote @ ''all'' @ dquote @
                           '' cannot be broadcast.''"

definition unrecognized_message :: "string \<Rightarrow> string" where
  "unrecognized_message tok = dquote @ trim tok @ dquote @
                              '' could not be found in any of the search categories.''"

definition note_category :: "jsobj \<Rightarrow> nat \<Rightarrow> jsobj \<times> nat" where
  \<comment> \<open>\<open>if (!obj.count) { count++; obj.count = 0; }\<close>\<close>
  "note_category obj n =
     (if falsy (js_get obj ''count'') then (js_set ''count'' 0 obj, n + 1) else (obj, n))"

definition add_member :: "string \<Rightarrow> jsobj \<Rightarrow> jsobj" where
  \<comment> \<open>\<open>obj[k] = 1; obj.count++;\<close>\<close>
  "add_member k obj = js_incr ''count'' (js_set k 1 obj)"

definition isGeneration :: "int option \<Rightarrow> bool" where
  \<comment> \<open>\<open>0 < targetInt && targetInt < 6\<close>, false for NaN\<close>
  "isGeneration v = (case v of None \<Rightarrow> False | Some i \<Rightarrow> 0 < i \<and> i < 6)"

definition classify :: "tools \<Rightarrow> cmdcontext \<Rightarrow> string \<Rightarrow> query \<Rightarrow> reply + query" where
  \<comment> \<open>the body of the loop over the tokens; \<open>Inr\<close> is \<open>continue\<close> (or the end of the
      body), \<open>Inl\<close> a \<open>return\<close>\<close>
  "classify T C tok q =
     (let move = getMove T tok in
      if exists move then
        (let (m, n) = note_category (moves q) (count q) in
         if js_get m ''count'' = Some 4
         then Inl (SendReply ''Specify a maximum of 4 moves.'')
         else Inr (q\<lparr>moves := add_member (toString move) m, count := n\<rparr>))
      else
      let abil = getAbility T tok in
      if exists abil then
        (let (a, n) = note_category (ability q) (count q) in
         if js_get a ''count'' = Some 1
         then Inl (SendReply ''Specify only one ability.'')
         else Inr (q\<lparr>ability := add_member (toString abil) a, count := n\<rparr>))
      else
      let target = toLowerCase (trim tok) in
      if js_in target allTiers then
        (let (t, n) = note_category (tiers q) (count q) in
         Inr (q\<lparr>tiers := add_member target t, count := n\<rparr>))
      else if js_in target allColours then
        (let (c, n) = note_category (colours q) (count q) in
         Inr (q\<lparr>colours := add_member target c, count := n\<rparr>))
      else
      let targetInt = parseInt target in
      if isGeneration targetInt then
        (let (g, n) = note_category (gens q) (count q) in
         Inr (q\<lparr>gens := add_member (show_nat (nat (the targetInt))) g, count := n\<rparr>))
      else if target = ''all'' then
        (if broadcasting C
         then Inl (SendReply broadcast_all_message)
         else Inr (q\<lparr>showAll := True\<rparr>))
      else
        (case indexOf target '' type'' of
           Some i \<Rightarrow>
             (let target = toUpperCase (charAt target 0) @ slice target 1 i in
              if has_property target (TypeChart T) then
                (let (t, n) = note_category (types' q) (count q) in
                 if js_get t ''count'' = Some 2
                 then Inl (SendReply ''Specify a maximum of two types.'')
                 else Inr (q\<lparr>types' := add_member target t, count := n\<rparr>))
              else Inr q)
         | None \<Rightarrow>
             Inl (SendReply (unrecognized_message tok))))"

fun classify_all :: "tools \<Rightarrow> cmdcontext \<Rightarrow> string list \<Rightarrow> query \<Rightarrow> reply + query" where
  \<comment> \<open>\<open>for (var i in targets)\<close>\<close>
  "classify_all T C [] q = Inr q"
| "classify_all T C (tok # toks) q =
     (case classify T C tok q of
        Inl r \<Rightarrow> Inl r
      | Inr q' \<Rightarrow> classify_all T C toks q')"

section \<open>dexsearch: evaluating the query\<close>

text \<open>
  The language gives arrays no method \<open>add\<close>: \<open>tempResults.add(x)\<close> is the method
  the Sugar library, which the server loads, puts on every array; with an element that is
  not an array it appends the element, and it is not seen by \<open>for (mon in results)\<close>.
  \<open>results\<close> is declared inside the loop, so it is undefined (\<open>None\<close>) until the
  first pass has run.
\<close>

definition initial_results :: "tools \<Rightarrow> query \<Rightarrow> template list" where
  "initial_results T q =
     filter (\<lambda>pokemon. tier pokemon \<noteq> ''Illegal'' \<and>
                        (tier pokemon \<noteq> ''CAP'' \<or> js_in ''cap'' (tiers q)))
            (map (getTemplate T) (Pokedex T))"

definition type_slot :: "template \<Rightarrow> nat \<Rightarrow> string" where
  \<comment> \<open>\<open>mon.types[i]\<close> as a property name: a missing slot reads as undefined\<close>
  "type_slot mon i =
     (if i < length (template.types mon) then template.types mon ! i else ''undefined'')"

definition matches_types :: "jsobj \<Rightarrow> template \<Rightarrow> bool" where
  "matches_types ts mon =
     (if js_get ts ''count'' = Some 1
      then js_in (type_slot mon 0) ts \<or> js_in (type_slot mon 1) ts
      else js_in (type_slot mon 0) ts \<and> js_in (type_slot mon 1) ts)"

definition ability_hits :: "tools \<Rightarrow> jsobj \<Rightarrow> template \<Rightarrow> template list" where
  \<comment> \<open>the species is added once for each of its abilities found in the object\<close>
  "ability_hits T ab mon =
     map (\<lambda>_. mon) (filter (\<lambda>monAbility. js_in (toString (getAbility T monAbility)) ab)
                            (abilities mon))"

definition new_lsetData :: lsetData where
  \<comment> \<open>\<open>{set:{}}\<close>\<close>
  "new_lsetData = \<lparr>level = None, noPokebank = False, sources = None, sourcesBefore = 0\<rparr>"

fun check_moves ::
  "tools \<Rightarrow> template \<Rightarrow> string list \<Rightarrow> lsetData \<Rightarrow> bool \<Rightarrow> reply + bool" where
  \<comment> \<open>\<open>for (var i in moves)\<close> for one species; the result is the value of \<open>problem\<close>
      after the loop\<close>
  "check_moves T tmpl [] lset problem = Inr problem"
| "check_moves T tmpl (i # rest) lset problem =
     (let move = getMove T i in
      if id' move \<noteq> ''count'' then
        if \<not> exists move
        then Inl (SendReplyBox (dquote @ toString move @ dquote @ '' is not a known move.''))
        else (case checkLearnset T move tmpl lset of
                (problem', lset') \<Rightarrow>
                  if problem' then Inr problem'
                  else check_moves T tmpl rest lset' problem')
      else check_moves T tmpl rest lset problem)"

fun filter_moves ::
  "tools \<Rightarrow> jsobj \<Rightarrow> template list \<Rightarrow> template list \<Rightarrow> bool \<Rightarrow> reply + template list" where
  \<comment> \<open>\<open>for (var mon in tempResults)\<close> of the move category; \<open>problem\<close> is one variable
      for the whole loop\<close>
  "filter_moves T mv [] results problem = Inr results"
| "filter_moves T mv (mon # rest) results problem =
     (case check_moves T (getTemplate T (id' mon)) (js_keys mv) new_lsetData problem of
        Inl r \<Rightarrow> Inl r
      | Inr problem' \<Rightarrow>
          filter_moves T mv rest (if \<not> problem' then results @ [mon] else results) problem')"

definition search_pass ::
  "tools \<Rightarrow> query \<Rightarrow> template list option \<Rightarrow> reply + query \<times> template list option" where
  \<comment> \<open>one pass of the body of \<open>while (count > 0)\<close>, after \<open>count--\<close>\<close>
  "search_pass T q results =
     (let tempResults = (case results of None \<Rightarrow> initial_results T q | Some r \<Rightarrow> r) in
      if positive (js_get (types' q) ''count'') then
        Inr (q\<lparr>types' := js_set ''count'' 0 (types' q)\<rparr>,
             Some (filter (matches_types (types' q)) tempResults))
      else if positive (js_get (tiers q) ''count'') then
        Inr (q\<lparr>tiers := js_set ''count'' 0 (tiers q)\<rparr>,
             Some (filter (\<lambda>mon. js_in (toLowerCase (tier mon)) (tiers q)) tempResults))
      else if positive (js_get (ability q) ''count'') then
        Inr (q\<lparr>ability := js_set ''count'' 0 (ability q)\<rparr>,
             Some (concat (map (ability_hits T (ability q)) tempResults)))
      else if positive (js_get (colours q) ''count'') then
        Inr (q\<lparr>colours := js_set ''count'' 0 (colours q)\<rparr>,
             Some (filter (\<lambda>mon. js_in (toLowerCase (color mon)) (colours q)) tempResults))
      else if positive (js_get (moves q) ''count'') then
        (case filter_moves T (moves q) tempResults [] False of
           Inl r \<Rightarrow> Inl r
         | Inr rs \<Rightarrow> Inr (q\<lparr>moves := js_set ''count'' 0 (moves q)\<rparr>, Some rs))
      else if positive (js_get (gens q) ''count'') then
        Inr (q\<lparr>gens := js_set ''count'' 0 (gens q)\<rparr>,
             Some (filter (\<lambda>mon. js_in (show_nat (gen mon)) (gens q)) tempResults))
      else Inr (q, Some []))"

fun search ::
  "tools \<Rightarrow> nat \<Rightarrow> query \<Rightarrow> template list option \<Rightarrow> reply + template list option" where
  \<comment> \<open>\<open>while (count > 0)\<close>, the second argument being \<open>count\<close>\<close>
  "search T 0 q results = Inr results"
| "search T (Suc n) q results =
     (case search_pass T q results of
        Inl r \<Rightarrow> Inl r
      | Inr (q', results') \<Rightarrow> search T n q' results')"

section \<open>dexsearch: the reply\<close>

definition no_pokemon_found :: string where
  "no_pokemon_found = ''No Pok'' @ [CHR 0xE9] @ ''mon found.''"

definition redo_hint :: string where
  "redo_hint = '' more. Redo the search with '' @ dquote @ ''all'' @ dquote @
               '' as a search parameter to show all results.''"

definition render :: "globals \<Rightarrow> bool \<Rightarrow> template list option \<Rightarrow> string" where
  \<comment> \<open>\<open>output\<close> is 10\<close>
  "render G all results =
     (case results of
        None \<Rightarrow> no_pokemon_found
      | Some rs \<Rightarrow>
          if length rs > 0 then
            (let names = map species rs in
             if all \<or> length names \<le> 10 then join names '', ''
             else
               (let hidden = string G (int (length names) - 10);
                    shown = take 10 (sort_random G names)
                in join shown '', '' @ '', and '' @ hidden @ redo_hint))
          else no_pokemon_found)"

definition only_all_message :: string where
  "only_all_message = ''No search parameters other than '' @ dquote @ ''all'' @ dquote @
     '' were found.'' @ [CHR 0x0A] @ ''Try '' @ dquote @ ''/help dexsearch'' @ dquote @
     '' for more information on this command.''"

definition dexsearch :: "tools \<Rightarrow> cmdcontext \<Rightarrow> globals \<Rightarrow> string \<Rightarrow> reply" where
  "dexsearch T C G target =
     (if \<not> canBroadcast C then NoReply
      else if target = [] then Parse ''/help dexsearch''
      else
        (case classify_all T C (split_comma target) empty_query of
           Inl r \<Rightarrow> r
         | Inr q \<Rightarrow>
             if showAll q \<and> count q = 0 then SendReply only_all_message
             else
               (case search T (count q) q None of
                  Inl r \<Rightarrow> r
                | Inr results \<Rightarrow> SendReplyBox (render G (showAll q) results))))"

section \<open>learn\<close>

definition sourceNames :: "string \<Rightarrow> string" where
  \<comment> \<open>\<open>sourceNames[k]\<close> inside a string concatenation, for a \<open>k\<close> of at most one
      character\<close>
  "sourceNames k =
     (if k = ''E'' then ''egg''
      else if k = ''S'' then ''event''
      else if k = ''D'' then ''dream world''
      else ''undefined'')"

definition empty_object :: effect where
  \<comment> \<open>\<open>var move = {}\<close>, as far as strings are made from it\<close>
  "empty_object = \<lparr>exists = False, id' = ''undefined'', name = ''undefined'',
                    toString = ''[object Object]''\<rparr>"

definition move_not_found :: "effect \<Rightarrow> string" where
  "move_not_found move = ''Move '' @ dquote @ id' move @ dquote @ '' not found.''"

fun check_targets ::
  "tools \<Rightarrow> template \<Rightarrow> string list \<Rightarrow> effect \<Rightarrow> lsetData \<Rightarrow> bool \<Rightarrow>
   reply + effect \<times> bool \<times> lsetData" where
  \<comment> \<open>\<open>for (var i=1, len=targets.length; i<len; i++)\<close>; the result holds \<open>move\<close>,
      \<open>problem\<close> and \<open>lsetData\<close> after the loop\<close>
  "check_targets T tmpl [] move lset problem = Inr (move, problem, lset)"
| "check_targets T tmpl (t # rest) move lset problem =
     (let move = getMove T t in
      if \<not> exists move
      then Inl (SendReply (move_not_found move))
      else (case checkLearnset T move tmpl lset of
              (problem', lset') \<Rightarrow>
                if problem' then Inr (move, problem', lset')
                else check_targets T tmpl rest move lset' problem'))"

definition continue_run :: "bool \<Rightarrow> string \<Rightarrow> int \<Rightarrow> string \<Rightarrow> string" where
  \<comment> \<open>a source of the same generation and method as the one before\<close>
  "continue_run all source prevSourceCount buffer =
     (if prevSourceCount < 0 then buffer @ '': '' @ drop 2 source
      else if all \<or> prevSourceCount < 3 then buffer @ '', '' @ drop 2 source
      else if prevSourceCount = 3 then buffer @ '', ...''
      else buffer)"

definition start_run :: "template \<Rightarrow> string \<Rightarrow> string \<Rightarrow> string" where
  \<comment> \<open>a source of a new generation or method\<close>
  "start_run tmpl source buffer =
     (let buffer1 = buffer @ ''<li>gen '' @ take 1 source @ '' '' @
                    sourceNames (take 1 (drop 1 source));
          buffer2 = (if take 2 source = ''5E'' \<and> maleOnlyHidden tmpl
                     then buffer1 @ '' (cannot have hidden ability)'' else buffer1)
      in if drop 2 source \<noteq> [] then buffer2 @ '': '' @ drop 2 source else buffer2)"

fun list_sources ::
  "bool \<Rightarrow> template \<Rightarrow> string list \<Rightarrow> (string \<times> int) option \<Rightarrow> string \<Rightarrow> string" where
  \<comment> \<open>the loop over the sorted sources. \<open>prevSourceType\<close> and \<open>prevSourceCount\<close> are
      one optional pair: both are assigned together, and the count is read only after
      the type has matched\<close>
  "list_sources all tmpl [] prev buffer = buffer"
| "list_sources all tmpl (source # rest) prev buffer =
     (case prev of
        None \<Rightarrow>
          list_sources all tmpl rest
            (Some (take 2 source, if drop 2 source \<noteq> [] then 0 else - 1))
            (start_run tmpl source buffer)
      | Some (prevSourceType, prevSourceCount) \<Rightarrow>
          if take 2 source = prevSourceType
          then list_sources all tmpl rest (Some (prevSourceType, prevSourceCount + 1))
                 (continue_run all source prevSourceCount buffer)
          else list_sources all tmpl rest
                 (Some (take 2 source, if drop 2 source \<noteq> [] then 0 else - 1))
                 (start_run tmpl source buffer))"

definition cannot_learn :: string where
  "cannot_learn = '' <span class='' @ dquote @ ''message-learn-cannotlearn'' @ dquote @
                  ''>can't</span> learn ''"

definition can_learn :: string where
  "can_learn = '' <span class='' @ dquote @ ''message-learn-canlearn'' @ dquote @
               ''>can</span> learn ''"

definition list_open :: string where
  "list_open = '' only when obtained from:<ul class='' @ dquote @ ''message-learn-list'' @
               dquote @ ''>''"

definition learn_buffer ::
  "bool \<Rightarrow> template \<Rightarrow> nat \<Rightarrow> effect \<Rightarrow> bool \<Rightarrow> lsetData \<Rightarrow> string" where
  \<comment> \<open>the text built after the loop over the moves; \<open>n\<close> is \<open>targets.length\<close>\<close>
  "learn_buffer all tmpl n move problem lset =
     (let buffer = name tmpl @ (if problem then cannot_learn else can_learn) @
                   (if n > 2 then ''these moves'' else name move)
      in if \<not> problem then
           (let buffer1 = (if sources lset \<noteq> None \<or> sourcesBefore lset \<noteq> 0
                           then buffer @ list_open else buffer);
                buffer2 = (case sources lset of
                             None \<Rightarrow> buffer1
                           | Some srcs \<Rightarrow> list_sources all tmpl (sort srcs) None buffer1);
                buffer3 = (if sourcesBefore lset \<noteq> 0
                           then buffer2 @ ''<li>any generation before '' @
                                show_nat (sourcesBefore lset + 1)
                           else buffer2)
            in buffer3 @ ''</ul>'')
         else buffer)"

definition start_lsetData :: "string \<Rightarrow> lsetData" where
  \<comment> \<open>\<open>{set:{}}\<close>, with the level 5 for \<open>learn5\<close> and the format for \<open>g6learn\<close>\<close>
  "start_lsetData cmd =
     new_lsetData\<lparr>level := (if cmd = ''learn5'' then Some 5 else None),
                   noPokebank := (cmd = ''g6learn'')\<rparr>"

definition learn :: "tools \<Rightarrow> cmdcontext \<Rightarrow> string \<Rightarrow> string \<Rightarrow> reply" where
  \<comment> \<open>\<open>split_comma\<close> gives at least one element, so \<open>targets[0]\<close> is there\<close>
  "learn T C cmd target =
     (if target = [] then Parse ''/help learn''
      else if \<not> canBroadcast C then NoReply
      else
        (let targets = split_comma target;
             tmpl = getTemplate T (hd targets);
             all = (cmd = ''learnall'')
         in if \<not> exists tmpl
            then SendReply (''Pokemon '' @ dquote @ id' tmpl @ dquote @ '' not found.'')
            else if length targets < 2
            then SendReply ''You must specify at least one move.''
            else
              (case check_targets T tmpl (tl targets) empty_object (start_lsetData cmd) False of
                 Inl r \<Rightarrow> r
               | Inr (move, problem, lset) \<Rightarrow>
                   SendReplyBox (learn_buffer all tmpl (length targets) move problem lset))))"

section \<open>The classifier, token by token\<close>

text \<open>
  The tests of the classifier in their order, written as one function from a token to
  its kind: a token goes to the first category whose test it passes. \<open>Ignored\<close> is a
  token that contains \<open>" type"\<close> but names no type of the type chart; the loop goes on
  to the next token without a word.
\<close>

datatype category = Move | Ability | Tier | Colour | Generation | Type

datatype kind = Category category | AllFlag | Ignored | Unrecognized

definition type_name :: "string \<Rightarrow> string option" where
  \<comment> \<open>the text before the first \<open>" type"\<close>, with a capital first letter\<close>
  "type_name target =
     map_option (\<lambda>i. toUpperCase (charAt target 0) @ slice target 1 i)
                (indexOf target '' type'')"

definition token_kind :: "tools \<Rightarrow> string \<Rightarrow> kind" where
  "token_kind T tok =
     (let target = toLowerCase (trim tok) in
      if exists (getMove T tok) then Category Move
      else if exists (getAbility T tok) then Category Ability
      else if js_in target allTiers then Category Tier
      else if js_in target allColours then Category Colour
      else if isGeneration (parseInt target) then Category Generation
      else if target = ''all'' then AllFlag
      else (case type_name target of
              None \<Rightarrow> Unrecognized
            | Some n \<Rightarrow> if has_property n (TypeChart T) then Category Type else Ignored))"

definition member_name :: "tools \<Rightarrow> category \<Rightarrow> string \<Rightarrow> string" where
  \<comment> \<open>the property a token of category \<open>c\<close> sets in the object of \<open>c\<close>\<close>
  "member_name T c tok =
     (let target = toLowerCase (trim tok) in
      case c of
        Move \<Rightarrow> toString (getMove T tok)
      | Ability \<Rightarrow> toString (getAbility T tok)
      | Tier \<Rightarrow> target
      | Colour \<Rightarrow> target
      | Generation \<Rightarrow> show_nat (nat (the (parseInt target)))
      | Type \<Rightarrow> the (type_name target))"

definition category_object :: "category \<Rightarrow> query \<Rightarrow> jsobj" where
  "category_object c q =
     (case c of Move \<Rightarrow> moves q | Ability \<Rightarrow> ability q | Tier \<Rightarrow> tiers q
      | Colour \<Rightarrow> colours q | Generation \<Rightarrow> gens q | Type \<Rightarrow> types' q)"

definition set_category :: "category \<Rightarrow> jsobj \<Rightarrow> query \<Rightarrow> query" where
  "set_category c obj q =
     (case c of Move \<Rightarrow> q\<lparr>moves := obj\<rparr> | Ability \<Rightarrow> q\<lparr>ability := obj\<rparr>
      | Tier \<Rightarrow> q\<lparr>tiers := obj\<rparr> | Colour \<Rightarrow> q\<lparr>colours := obj\<rparr>
      | Generation \<Rightarrow> q\<lparr>gens := obj\<rparr> | Type \<Rightarrow> q\<lparr>types' := obj\<rparr>)"

definition limit :: "category \<Rightarrow> nat option" where
  \<comment> \<open>the number of earlier tokens at which one more token of the category is refused\<close>
  "limit c = (case c of Move \<Rightarrow> Some 4 | Ability \<Rightarrow> Some 1 | Type \<Rightarrow> Some 2 | _ \<Rightarrow> None)"

definition limit_reply :: "category \<Rightarrow> reply" where
  "limit_reply c =
     (case c of
        Move \<Rightarrow> SendReply ''Specify a maximum of 4 moves.''
      | Ability \<Rightarrow> SendReply ''Specify only one ability.''
      | _ \<Rightarrow> SendReply ''Specify a maximum of two types.'')"

definition stored_count :: "jsobj \<Rightarrow> nat" where
  \<comment> \<open>\<open>obj.count\<close> as a number, 0 while it is undefined\<close>
  "stored_count obj = (case js_get obj ''count'' of None \<Rightarrow> 0 | Some n \<Rightarrow> n)"

definition tokens_of :: "tools \<Rightarrow> category \<Rightarrow> string list \<Rightarrow> string list" where
  "tokens_of T c toks = filter (\<lambda>t. token_kind T t = Category c) toks"

definition plain_names :: "tools \<Rightarrow> string list \<Rightarrow> bool" where
  \<comment> \<open>no token is looked up as a move or an ability that calls itself \<open>count\<close>\<close>
  "plain_names T toks =
     (\<forall>t \<in> set toks. toString (getMove T t) \<noteq> ''count'' \<and>
                      toString (getAbility T t) \<noteq> ''count'')"

definition search_order :: "category list" where
  "search_order = [Type, Tier, Ability, Colour, Move, Generation]"

definition pending :: "query \<Rightarrow> category list" where
  \<comment> \<open>the categories the search has still to apply\<close>
  "pending q = filter (\<lambda>c. 0 < stored_count (category_object c q)) search_order"

definition reserved :: "string list" where
  \<comment> \<open>the property names every category object has whatever was searched: the counter
      and the inherited names\<close>
  "reserved = ''count'' # Object_prototype"

section \<open>The search, category by category\<close>

text \<open>
  What the specification says of the search, as definitions of their own: one category
  narrows a working set (\<open>apply_category\<close>), the categories are applied one after the
  other (\<open>apply_categories\<close>), and a species satisfies a category when one of its values
  is among the members (\<open>satisfies\<close>). For the moves, \<open>learns_all\<close> asks the legality
  engine about each requested move in turn, handing on the legality data. The loop of
  the source is compared with these below.
\<close>

definition requested_moves :: "tools \<Rightarrow> jsobj \<Rightarrow> string list" where
  "requested_moves T mv = filter (\<lambda>k. id' (getMove T k) \<noteq> ''count'') (js_keys mv)"

fun learns_all :: "tools \<Rightarrow> template \<Rightarrow> string list \<Rightarrow> lsetData \<Rightarrow> bool" where
  "learns_all T tmpl [] lset = True"
| "learns_all T tmpl (k # ks) lset =
     (exists (getMove T k) \<and>
      (case checkLearnset T (getMove T k) tmpl lset of
         (problem, lset') \<Rightarrow> \<not> problem \<and> learns_all T tmpl ks lset'))"

definition apply_category ::
  "tools \<Rightarrow> query \<Rightarrow> category \<Rightarrow> template list \<Rightarrow> reply + template list" where
  "apply_category T q c rs =
     (case c of
        Type \<Rightarrow> Inr (filter (matches_types (types' q)) rs)
      | Tier \<Rightarrow> Inr (filter (\<lambda>mon. js_in (toLowerCase (tier mon)) (tiers q)) rs)
      | Ability \<Rightarrow> Inr (concat (map (ability_hits T (ability q)) rs))
      | Colour \<Rightarrow> Inr (filter (\<lambda>mon. js_in (toLowerCase (color mon)) (colours q)) rs)
      | Move \<Rightarrow> filter_moves T (moves q) rs [] False
      | Generation \<Rightarrow> Inr (filter (\<lambda>mon. js_in (show_nat (gen mon)) (gens q)) rs))"

fun apply_categories ::
  "tools \<Rightarrow> query \<Rightarrow> category list \<Rightarrow> template list \<Rightarrow> reply + template list" where
  "apply_categories T q [] rs = Inr rs"
| "apply_categories T q (c # cs) rs =
     (case apply_category T q c rs of
        Inl r \<Rightarrow> Inl r
      | Inr rs' \<Rightarrow> apply_categories T q cs rs')"

definition done_with :: "category \<Rightarrow> query \<Rightarrow> query" where
  "done_with c q = set_category c (js_set ''count'' 0 (category_object c q)) q"

definition working :: "tools \<Rightarrow> query \<Rightarrow> template list option \<Rightarrow> template list" where
  "working T q res = (case res of None \<Rightarrow> initial_results T q | Some r \<Rightarrow> r)"

definition satisfies :: "tools \<Rightarrow> query \<Rightarrow> category \<Rightarrow> template \<Rightarrow> bool" where
  "satisfies T q c mon =
     (case c of
        Type \<Rightarrow>
          (if stored_count (types' q) = 1
           then type_slot mon 0 \<in> set (members (types' q)) \<or>
                type_slot mon 1 \<in> set (members (types' q))
           else type_slot mon 0 \<in> set (members (types' q)) \<and>
                type_slot mon 1 \<in> set (members (types' q)))
      | Tier \<Rightarrow> toLowerCase (tier mon) \<in> set (members (tiers q))
      | Ability \<Rightarrow>
          (\<exists>a \<in> set (abilities mon). toString (getAbility T a) \<in> set (members (ability q)))
      | Colour \<Rightarrow> toLowerCase (color mon) \<in> set (members (colours q))
      | Move \<Rightarrow>
          learns_all T (getTemplate T (id' mon)) (requested_moves T (moves q)) new_lsetData
      | Generation \<Rightarrow> show_nat (gen mon) \<in> set (members (gens q)))"

definition ordinary_species :: "tools \<Rightarrow> template \<Rightarrow> bool" where
  "ordinary_species T mon =
     (toLowerCase (tier mon) \<notin> set reserved \<and> toLowerCase (color mon) \<notin> set reserved \<and>
      (\<forall>t \<in> set (template.types mon). t \<notin> set reserved) \<and>
      (\<forall>a \<in> set (abilities mon). toString (getAbility T a) \<notin> set reserved))"

definition ordinary_names :: "tools \<Rightarrow> bool" where
  "ordinary_names T = (\<forall>key \<in> set (Pokedex T). ordinary_species T (getTemplate T key))"


section \<open>The list of sources, run by run\<close>

text \<open>
  What the specification says of the list of sources, as definitions of their own. A run
  is a maximal stretch of consecutive sources with the same first two characters
  (generation and method); what follows the two characters is the detail of a source.
  \<open>render_run n\<close> is the text of one run that shows up to \<open>n\<close> details and then an
  ellipsis; in the exhaustive mode it shows all of them.
\<close>

function runs :: "string list \<Rightarrow> string list list" where
  "runs [] = []"
| "runs (s # ss) =
     (s # takeWhile (\<lambda>x. take 2 x = take 2 s) ss) #
     runs (dropWhile (\<lambda>x. take 2 x = take 2 s) ss)"
  by pat_completeness auto
termination
  by (relation "measure length") (auto simp add: length_dropWhile_le less_Suc_eq_le)

fun run_details :: "string list \<Rightarrow> string list" where
  "run_details [] = []"
| "run_details (s # ss) =
     (if drop 2 s = [] then map (drop 2) ss else map (drop 2) (s # ss))"

fun run_title :: "template \<Rightarrow> string list \<Rightarrow> string" where
  "run_title tmpl [] = []"
| "run_title tmpl (s # ss) =
     ''<li>gen '' @ take 1 s @ '' '' @ sourceNames (take 1 (drop 1 s)) @
     (if take 2 s = ''5E'' \<and> maleOnlyHidden tmpl then '' (cannot have hidden ability)'' else [])"

definition render_run :: "nat \<Rightarrow> bool \<Rightarrow> template \<Rightarrow> string list \<Rightarrow> string" where
  "render_run n all tmpl run =
     (let ds = run_details run in
      run_title tmpl run @
      (if ds = [] then []
       else '': '' @ join (if all then ds else take n ds) '', '' @
            (if \<not> all \<and> n < length ds then '', ...'' else [])))"

section \<open>Example data\<close>

text \<open>
  Small data sets on which the commands are run below. \<open>toId\<close> and \<open>lookup\<close> behave
  as the lookups of the server do: a name is found by its lower-case alphanumeric form.
\<close>

definition toId :: "string \<Rightarrow> string" where
  "toId s = filter (\<lambda>c. (CHR ''a'' \<le> c \<and> c \<le> CHR ''z'') \<or> (CHR ''0'' \<le> c \<and> c \<le> CHR ''9''))
                   (toLowerCase s)"

definition lookup :: "(string \<times> string) list \<Rightarrow> string \<Rightarrow> effect" where
  "lookup tab s =
     (case map_of tab (toId s) of
        Some n \<Rightarrow> \<lparr>exists = True, id' = toId s, name = n, toString = n\<rparr>
      | None \<Rightarrow> \<lparr>exists = False, id' = toId s, name = trim s, toString = trim s\<rparr>)"

definition C0 :: cmdcontext where
  "C0 = \<lparr>canBroadcast = True, broadcasting = False\<rparr>"

definition G0 :: globals where
  "G0 = \<lparr>string = (\<lambda>i. show_nat (nat i)), sort_random = rev\<rparr>"

definition plain :: "string \<Rightarrow> template" where
  "plain s = \<lparr>exists = True, id' = s, name = s, species = s, template.types = [''Normal''],
              tier = ''OU'', color = ''Brown'', abilities = [''Run Away''], gen = 1,
              maleOnlyHidden = False\<rparr>"

definition T23 :: tools where
  \<comment> \<open>twenty-three species, named by their numbers\<close>
  "T23 = \<lparr>getMove = lookup [], getAbility = lookup [], getTemplate = plain,
          checkLearnset = (\<lambda>move tmpl lset. (False, lset)),
          Pokedex = map show_nat [1 ..< 24], TypeChart = [''Normal'']\<rparr>"

definition q_ou :: query where
  "q_ou = empty_query\<lparr>tiers := [(''count'', 1), (''ou'', 1)], count := 1\<rparr>"

definition entry ::
  "string \<Rightarrow> string list \<Rightarrow> string \<Rightarrow> string \<Rightarrow> string list \<Rightarrow> nat \<Rightarrow> template" where
  "entry n ts ti co ab g =
     \<lparr>exists = True, id' = toId n, name = n, species = n, template.types = ts, tier = ti,
      color = co, abilities = ab, gen = g, maleOnlyHidden = False\<rparr>"

definition dex :: "template list" where
  "dex = [entry ''Charizard'' [''Fire'', ''Flying''] ''OU'' ''Red'' [''Blaze'', ''Solar Power''] 1,
          entry ''Moltres'' [''Fire'', ''Flying''] ''UU'' ''Yellow'' [''Pressure''] 1,
          entry ''Vulpix'' [''Fire''] ''LC'' ''Brown'' [''Flash Fire'', ''Drought''] 1,
          entry ''Squirtle'' [''Water''] ''LC'' ''Blue'' [''Torrent''] 1,
          entry ''Syclant'' [''Ice'', ''Bug''] ''CAP'' ''Blue'' [''Compoundeyes''] 4,
          entry ''Missingno.'' [''Bird'', ''Normal''] ''Illegal'' ''Gray'' [] 1]"

definition find_template :: "template list \<Rightarrow> string \<Rightarrow> template" where
  "find_template ms s =
     (case find (\<lambda>m. id' m = toId s) ms of
        Some m \<Rightarrow> m
      | None \<Rightarrow> (entry s [] ''Illegal'' [] [] 0)\<lparr>exists := False\<rparr>)"

definition T0 :: tools where
  \<comment> \<open>six species; Fly is learnt by the Flying, Surf by the Water species, Tackle by all\<close>
  "T0 = \<lparr>getMove = lookup [(''tackle'', ''Tackle''), (''surf'', ''Surf''), (''fly'', ''Fly'')],
         getAbility = lookup [(''blaze'', ''Blaze''), (''torrent'', ''Torrent''),
                              (''pressure'', ''Pressure'')],
         getTemplate = find_template dex,
         checkLearnset = (\<lambda>move tmpl lset.
            (\<not> (id' move = ''tackle'' \<or>
                 (id' move = ''fly'' \<and> ''Flying'' \<in> set (template.types tmpl)) \<or>
                 (id' move = ''surf'' \<and> ''Water'' \<in> set (template.types tmpl))), lset)),
         Pokedex = map id' dex,
         TypeChart = [''Fire'', ''Water'', ''Flying'', ''Ice'', ''Bug'', ''Normal'', ''Bird'']\<rparr>"

definition q_ou_twice :: query where
  "q_ou_twice = empty_query\<lparr>tiers := [(''count'', 2), (''ou'', 1)], count := 1\<rparr>"

definition q_mixed :: query where
  "q_mixed = empty_query\<lparr>moves := [(''count'', 2), (''Fly'', 1)],
                          tiers := [(''count'', 3), (''ou'', 1), (''uu'', 1)], count := 2\<rparr>"

definition q_fire_twice :: query where
  "q_fire_twice = empty_query\<lparr>types' := [(''count'', 2), (''Fire'', 1)], count := 1\<rparr>"

definition ts_fire :: jsobj where
  "ts_fire = [(''count'', 1), (''Fire'', 1)]"

definition ts_flying_fire :: jsobj where
  "ts_flying_fire = [(''count'', 2), (''Flying'', 1), (''Fire'', 1)]"


definition q_fire_ou :: query where
  "q_fire_ou = empty_query\<lparr>tiers := [(''count'', 1), (''ou'', 1)],
                            types' := [(''count'', 1), (''Fire'', 1)], count := 2\<rparr>"

definition T9 :: tools where
  \<comment> \<open>the data of \<open>T0\<close> with another legality engine: nobody learns Fly, and Surf
      comes with six sources\<close>
  "T9 = T0\<lparr>checkLearnset := (\<lambda>move tmpl lset.
            if id' move = ''fly'' then (True, lset)
            else if id' move = ''surf''
            then (False, lset\<lparr>sources := Some [''5Se'', ''5Sa'', ''4E'', ''5Sc'', ''5Sb'', ''5Sd'']\<rparr>)
            else (False, lset))\<rparr>"

section \<open>Lemmas on objects and on numbers\<close>

lemma split_comma_not_empty: "split_comma s \<noteq> []"
  by (induction s) (auto split: list.splits)

lemma keys_js_update: "fst ` set (js_update k v obj) = insert k (fst ` set obj)"
  by (induction obj) auto

lemma map_of_js_update: "map_of (js_update k v obj) = (map_of obj)(k \<mapsto> v)"
  by (induction obj) (auto simp add: fun_eq_iff)

lemma js_get_js_set:
  "js_get (js_set k v obj) k' =
     (if k = ''__proto__'' then js_get obj k' else if k' = k then Some v else js_get obj k')"
  by (simp add: js_get_def js_set_def map_of_js_update)

lemma keys_js_set:
  "fst ` set (js_set k v obj) =
     (if k = ''__proto__'' then fst ` set obj else insert k (fst ` set obj))"
  by (simp add: js_set_def keys_js_update)

lemma js_in_iff: "js_in k obj = (k \<in> fst ` set obj \<or> k \<in> set Object_prototype)"
  by (simp add: js_in_def has_property_def)

lemma proto_in_prototype: "''__proto__'' \<in> set Object_prototype"
  by (simp add: Object_prototype_def)

lemma js_in_js_set: "js_in k' (js_set k v obj) = (k' = k \<or> js_in k' obj)"
  using proto_in_prototype by (auto simp add: js_in_iff keys_js_set)

lemma js_in_add_member: "js_in k' (add_member k obj) = (k' = k \<or> k' = ''count'' \<or> js_in k' obj)"
  by (auto simp add: add_member_def js_incr_def js_in_js_set)

lemma set_members: "set (members obj) = fst ` set obj - {''count''}"
  by (auto simp add: members_def)

lemma members_js_set:
  "set (members (js_set k v obj)) =
     (if k = ''__proto__'' \<or> k = ''count'' then set (members obj)
      else insert k (set (members obj)))"
  by (auto simp add: set_members keys_js_set)

lemma members_add_member:
  "set (members (add_member k obj)) =
     (if k = ''__proto__'' \<or> k = ''count'' then set (members obj)
      else insert k (set (members obj)))"
  by (simp add: add_member_def js_incr_def members_js_set)

lemma members_note_category: "set (members (fst (note_category obj n))) = set (members obj)"
  by (simp add: note_category_def members_js_set)

lemma show_nat_digit: "n < 10 \<Longrightarrow> length (show_nat n) = 1"
  by (simp add: show_nat.simps)

lemma digit_not_space: "isDigit R c \<Longrightarrow> \<not> isWhiteSpace c"
  by (auto simp add: isDigit_def digitValue_def isWhiteSpace_def split: option.splits if_splits)

lemma digit_not_sign: "isDigit R c \<Longrightarrow> c \<noteq> CHR ''-'' \<and> c \<noteq> CHR ''+''"
  by (auto simp add: isDigit_def digitValue_def split: option.splits if_splits)

lemma x_not_digit10: "\<not> isDigit 10 (CHR ''x'')" "\<not> isDigit 10 (CHR ''X'')"
  by (simp_all add: isDigit_def digitValue_def)

lemma digitsValue_zero: "digitsValue 10 ''0'' = 0"
  by (simp add: digitsValue_def digitValue_def)

lemma takeWhile_prefix:
  "list_all P ds \<Longrightarrow> rest = [] \<or> \<not> P (hd rest) \<Longrightarrow> takeWhile P (ds @ rest) = ds"
  by (cases rest) (auto simp add: list_all_iff takeWhile_append2 intro: takeWhile_eq_all_conv[THEN iffD2])

lemma parseInt_digits:
  assumes "ds \<noteq> []" and "list_all (isDigit 10) ds" and "rest = [] \<or> \<not> isDigit 10 (hd rest)"
    and "0 < digitsValue 10 ds"
  shows "parseInt (ds @ rest) = Some (int (digitsValue 10 ds))"
proof -
  obtain d ds' where ds: "ds = d # ds'" using assms(1) by (cases ds) auto
  have d: "isDigit 10 d" using assms(2) ds by simp
  have w: "dropWhile isWhiteSpace (ds @ rest) = ds @ rest"
    using d ds digit_not_space by simp
  have s: "take 1 (ds @ rest) \<noteq> ''-''" "take 1 (ds @ rest) \<noteq> ''+''"
    using d ds digit_not_sign by auto
  have nothex: "take 2 (ds @ rest) \<noteq> ''0x'' \<and> take 2 (ds @ rest) \<noteq> ''0X''"
  proof (cases ds')
    case Nil
    show ?thesis
    proof (cases rest)
      case Nil
      with \<open>ds' = []\<close> ds show ?thesis by simp
    next
      case (Cons r rs)
      with assms(3) have "\<not> isDigit 10 r" by simp
      with Cons \<open>ds' = []\<close> ds assms(4) digitsValue_zero show ?thesis by auto
    qed
  next
    case (Cons e es)
    with assms(2) ds have "isDigit 10 e" by simp
    with Cons ds x_not_digit10 show ?thesis by auto
  qed
  have t: "takeWhile (isDigit 10) (ds @ rest) = ds"
    using assms(2,3) by (rule takeWhile_prefix)
  show ?thesis
    using w s nothex t assms(1) by (simp add: parseInt_def Let_def)
qed

section \<open>Properties of the classifier\<close>

lemma classify_by_kind:
  "classify T C tok q =
     (case token_kind T tok of
        Category c \<Rightarrow>
          if limit c \<noteq> None \<and> limit c = js_get (fst (note_category (category_object c q) (count q))) ''count''
          then Inl (limit_reply c)
          else Inr (set_category c
                      (add_member (member_name T c tok)
                         (fst (note_category (category_object c q) (count q))))
                      (q\<lparr>count := snd (note_category (category_object c q) (count q))\<rparr>))
      | AllFlag \<Rightarrow> if broadcasting C then Inl (SendReply broadcast_all_message)
                   else Inr (q\<lparr>showAll := True\<rparr>)
      | Ignored \<Rightarrow> Inr q
      | Unrecognized \<Rightarrow> Inl (SendReply (unrecognized_message tok)))"
  by (simp add: classify_def token_kind_def member_name_def category_object_def set_category_def
        limit_def limit_reply_def type_name_def Let_def broadcast_all_message_def
        unrecognized_message_def split_beta
      split: option.splits)

lemma falsy_stored: "falsy (js_get obj ''count'') = (stored_count obj = 0)"
  by (auto simp add: falsy_def stored_count_def split: option.splits)

lemma positive_stored: "positive (js_get obj ''count'') = (0 < stored_count obj)"
  by (auto simp add: positive_def stored_count_def split: option.splits)

lemma stored_count_js_set:
  "stored_count (js_set k v obj) = (if k = ''count'' then v else stored_count obj)"
  by (simp add: stored_count_def js_get_js_set)

lemma stored_count_note: "stored_count (fst (note_category obj n)) = stored_count obj"
  by (simp add: note_category_def falsy_stored stored_count_js_set)

lemma snd_note_category:
  "snd (note_category obj n) = (if stored_count obj = 0 then n + 1 else n)"
  by (simp add: note_category_def falsy_stored)

lemma js_get_note_defined: "js_get (fst (note_category obj n)) ''count'' \<noteq> None"
  by (auto simp add: note_category_def falsy_def js_get_js_set)

lemma stored_count_add_member:
  "js_get obj ''count'' \<noteq> None \<Longrightarrow>
   stored_count (add_member k obj) = (if k = ''count'' then 2 else stored_count obj + 1)"
  by (auto simp add: add_member_def js_incr_def stored_count_def js_get_js_set
           split: option.splits)

lemma stored_count_step:
  "stored_count (add_member k (fst (note_category obj n))) =
     (if k = ''count'' then 2 else stored_count obj + 1)"
  by (simp add: stored_count_add_member js_get_note_defined stored_count_note)

lemma limit_check:
  "(Some l = js_get (fst (note_category obj n)) ''count'') = (stored_count obj = l)"
  using js_get_note_defined [of obj n] stored_count_note [of obj n]
  by (auto simp add: stored_count_def split: option.splits)

lemma category_object_set_category:
  "category_object c' (set_category c obj q) = (if c' = c then obj else category_object c' q)"
  by (cases c; cases c') (simp_all add: category_object_def set_category_def)

lemma category_object_count [simp]:
  "category_object c (q\<lparr>count := n\<rparr>) = category_object c q"
  by (cases c) (simp_all add: category_object_def)

lemma category_object_showAll [simp]:
  "category_object c (q\<lparr>showAll := b\<rparr>) = category_object c q"
  by (cases c) (simp_all add: category_object_def)

lemma count_set_category [simp]: "count (set_category c obj q) = count q"
  by (cases c) (simp_all add: set_category_def)

lemma showAll_set_category [simp]: "showAll (set_category c obj q) = showAll q"
  by (cases c) (simp_all add: set_category_def)

text \<open>What one token does, when it is classified into a category.\<close>

lemma classify_category:
  assumes "token_kind T tok = Category c" and "classify T C tok q = Inr q'"
  shows "category_object c q' =
           add_member (member_name T c tok) (fst (note_category (category_object c q) (count q)))"
    and "\<And>c'. c' \<noteq> c \<Longrightarrow> category_object c' q' = category_object c' q"
    and "count q' = (if stored_count (category_object c q) = 0 then count q + 1 else count q)"
    and "showAll q' = showAll q"
    and "limit c \<noteq> Some (stored_count (category_object c q))"
  using assms
  by (auto simp add: classify_by_kind category_object_set_category snd_note_category limit_check
           split: if_splits)

lemma classify_other:
  assumes "\<forall>c. token_kind T tok \<noteq> Category c" and "classify T C tok q = Inr q'"
  shows "category_object c q' = category_object c q" and "count q' = count q"
  using assms by (cases "token_kind T tok"; auto simp add: classify_by_kind split: if_splits)+

lemma classify_limit:
  assumes "token_kind T tok = Category c" and "limit c = Some (stored_count (category_object c q))"
  shows "classify T C tok q = Inl (limit_reply c)"
  using assms by (auto simp add: classify_by_kind limit_check)

lemma toUpper_head: "toUpper c \<noteq> [] \<and> hd (toUpper c) \<noteq> CHR ''c''"
proof (cases "isLowerCase c")
  case True
  then show ?thesis by (cases c) (simp add: toUpper_def)
next
  case False
  have "isLowerCase (CHR ''c'')" by (simp add: isLowerCase_def)
  with False have "c \<noteq> CHR ''c''" by auto
  with False show ?thesis by (simp add: toUpper_def)
qed

lemma type_name_not_count: "type_name target = Some n \<Longrightarrow> n \<noteq> ''count''"
proof (cases target)
  case Nil
  assume "type_name target = Some n"
  with Nil show ?thesis by (simp add: type_name_def)
next
  case (Cons c cs)
  assume "type_name target = Some n"
  then obtain i where "n = toUpper c @ slice target 1 i"
    using Cons by (auto simp add: type_name_def charAt_def toUpperCase_def)
  then have "hd n = hd (toUpper c)" using toUpper_head [of c] by simp
  with toUpper_head [of c] show ?thesis by auto
qed

lemma digit_char: "k < 10 \<Longrightarrow> ''0123456789'' ! k \<noteq> CHR ''t''"
proof -
  assume "k < 10"
  then have "k \<in> {0, 1, 2, 3, 4, 5, 6, 7, 8, 9}" by auto
  then show ?thesis by auto
qed

lemma last_show_nat: "last (show_nat n) = ''0123456789'' ! (n mod 10)"
  by (subst show_nat.simps) simp

lemma show_nat_not_count: "show_nat n \<noteq> ''count''"
proof
  assume "show_nat n = ''count''"
  then have "last (show_nat n) = CHR ''t''" by simp
  then show False using last_show_nat [of n] digit_char [of "n mod 10"] by simp
qed

lemma member_name_not_count:
  assumes "token_kind T tok = Category c" and "c \<noteq> Move" and "c \<noteq> Ability"
  shows "member_name T c tok \<noteq> ''count''"
proof (cases c)
  case Tier
  with assms(1) have "js_in (toLowerCase (trim tok)) allTiers"
    by (auto simp add: token_kind_def Let_def split: if_splits option.splits)
  then show ?thesis using Tier
    by (auto simp add: member_name_def js_in_iff allTiers_def Object_prototype_def)
next
  case Colour
  with assms(1) have "js_in (toLowerCase (trim tok)) allColours"
    by (auto simp add: token_kind_def Let_def split: if_splits option.splits)
  then show ?thesis using Colour
    by (auto simp add: member_name_def js_in_iff allColours_def Object_prototype_def)
next
  case Generation
  then show ?thesis by (simp add: member_name_def show_nat_not_count)
next
  case Type
  with assms(1) obtain n where "type_name (toLowerCase (trim tok)) = Some n"
    by (auto simp add: token_kind_def Let_def split: if_splits option.splits)
  then show ?thesis using Type type_name_not_count by (simp add: member_name_def)
qed (use assms in auto)

lemma member_name_plain:
  assumes "token_kind T tok = Category c" and "plain_names T [tok]"
  shows "member_name T c tok \<noteq> ''count''"
proof (cases "c = Move \<or> c = Ability")
  case True
  with assms(2) show ?thesis by (auto simp add: member_name_def plain_names_def)
next
  case False
  with assms(1) show ?thesis by (simp add: member_name_not_count)
qed

text \<open>Counting the tokens of one category.\<close>

lemma classify_counts:
  assumes "classify T C tok q = Inr q'" and "plain_names T [tok]"
  shows "stored_count (category_object c q') =
           stored_count (category_object c q) + length (tokens_of T c [tok])"
proof (cases "token_kind T tok = Category c")
  case True
  from classify_category(1) [OF True assms(1)] member_name_plain [OF True assms(2)] True
  show ?thesis by (simp add: stored_count_step tokens_of_def)
next
  case False
  have "category_object c q' = category_object c q"
  proof (cases "\<exists>d. token_kind T tok = Category d")
    case True
    then obtain d where d: "token_kind T tok = Category d" by blast
    with False have "c \<noteq> d" by auto
    with classify_category(2) [OF d assms(1)] show ?thesis by simp
  next
    case False
    with classify_other(1) [OF _ assms(1)] show ?thesis by simp
  qed
  with False show ?thesis by (simp add: tokens_of_def)
qed

lemma plain_names_Cons:
  "plain_names T (t # ts) = (plain_names T [t] \<and> plain_names T ts)"
  by (auto simp add: plain_names_def)

lemma classify_all_counts:
  assumes "classify_all T C toks q = Inr q'" and "plain_names T toks"
  shows "stored_count (category_object c q') =
           stored_count (category_object c q) + length (tokens_of T c toks)"
  using assms
proof (induction toks arbitrary: q)
  case Nil
  then show ?case by (simp add: tokens_of_def)
next
  case (Cons t ts)
  from Cons.prems(1) obtain q1 where s: "classify T C t q = Inr q1"
    and r: "classify_all T C ts q1 = Inr q'"
    by (auto split: sum.splits)
  from Cons.prems(2) have p: "plain_names T [t]" "plain_names T ts"
    using plain_names_Cons by blast+
  from classify_counts [OF s p(1)] Cons.IH [OF r p(2)]
  show ?case by (simp add: tokens_of_def)
qed

lemma members_step:
  "set (members (add_member k (fst (note_category obj n)))) \<subseteq> insert k (set (members obj))"
  by (auto simp add: members_add_member members_note_category split: if_splits)

lemma classify_members:
  assumes "classify T C tok q = Inr q'" and "plain_names T [tok]"
    and "card (set (members (category_object c q))) \<le> stored_count (category_object c q)"
  shows "card (set (members (category_object c q'))) \<le> stored_count (category_object c q')"
proof (cases "token_kind T tok = Category c")
  case True
  let ?k = "member_name T c tok"
  let ?old = "category_object c q"
  from classify_category(1) [OF True assms(1)]
  have "set (members (category_object c q')) \<subseteq> insert ?k (set (members ?old))"
    using members_step by simp
  then have "card (set (members (category_object c q'))) \<le> card (insert ?k (set (members ?old)))"
    by (simp add: card_mono)
  also have "\<dots> \<le> card (set (members ?old)) + 1"
    by (simp add: card_insert_le_m1)
  finally show ?thesis
    using assms(3) classify_counts [OF assms(1,2), of c] True by (simp add: tokens_of_def)
next
  case False
  have "category_object c q' = category_object c q"
  proof (cases "\<exists>d. token_kind T tok = Category d")
    case True
    then obtain d where d: "token_kind T tok = Category d" by blast
    with False have "c \<noteq> d" by auto
    with classify_category(2) [OF d assms(1)] show ?thesis by simp
  next
    case False
    with classify_other(1) [OF _ assms(1)] show ?thesis by simp
  qed
  with assms(3) show ?thesis by simp
qed

lemma classify_all_members:
  assumes "classify_all T C toks q = Inr q'" and "plain_names T toks"
    and "card (set (members (category_object c q))) \<le> stored_count (category_object c q)"
  shows "card (set (members (category_object c q'))) \<le> stored_count (category_object c q')"
  using assms
proof (induction toks arbitrary: q)
  case Nil
  then show ?case by simp
next
  case (Cons t ts)
  from Cons.prems(1) obtain q1 where s: "classify T C t q = Inr q1"
    and r: "classify_all T C ts q1 = Inr q'"
    by (auto split: sum.splits)
  from Cons.prems(2) have p: "plain_names T [t]" "plain_names T ts"
    using plain_names_Cons by blast+
  from Cons.IH [OF r p(2) classify_members [OF s p(1) Cons.prems(3)]]
  show ?case .
qed

lemma empty_query_objects [simp]: "category_object c empty_query = []"
  by (cases c) (simp_all add: category_object_def empty_query_def)

text \<open>
  C7 (as stated). The count of a category is not the size of its member set: the search
  \<open>ou, ou\<close> leaves the tiers with the one member \<open>ou\<close> and the count 2.
\<close>

theorem count_differs_from_members_counterexample:
  "classify_all T23 C0 (split_comma ''ou, ou'') empty_query = Inr q_ou_twice \<and>
   members (tiers q_ou_twice) = [''ou''] \<and>
   js_get (tiers q_ou_twice) ''count'' = Some 2 \<and>
   stored_count (tiers q_ou_twice) \<noteq> length (members (tiers q_ou_twice))"
  by code_simp

text \<open>
  C7 (amended). After the tokens have been classified, the count stored in the object
  of each category is the number of tokens that were classified into the category, a
  repeated member counting each time; so the count is at least the number of distinct
  members. (No move and no ability of the data may call itself \<open>count\<close>, the name of
  the property that holds the count.)
\<close>

theorem count_is_number_of_tokens:
  assumes "classify_all T C toks empty_query = Inr q" and "plain_names T toks"
  shows "stored_count (category_object c q) = length (tokens_of T c toks) \<and>
         card (set (members (category_object c q))) \<le> stored_count (category_object c q)"
  using classify_all_counts [OF assms, of c] classify_all_members [OF assms, of c]
  by (simp add: stored_count_def js_get_def members_def)

theorem count_is_number_of_tokens_witness:
  "stored_count (category_object Tier q_mixed) = 3 \<and>
   card (set (members (category_object Tier q_mixed))) \<le> 3"
proof -
  let ?toks = "split_comma ''ou, OU, uu, fly, fly''"
  have h1: "classify_all T0 C0 ?toks empty_query = Inr q_mixed" by code_simp
  have h2: "plain_names T0 ?toks" by code_simp
  have e: "length (tokens_of T0 Tier ?toks) = 3" by code_simp
  from count_is_number_of_tokens [OF h1 h2, of Tier] show ?thesis
    unfolding e by simp
qed

lemma digit_not_keyword:
  "isDigit 10 d \<Longrightarrow> \<not> js_in (d # s) allTiers \<and> \<not> js_in (d # s) allColours"
  by (auto simp add: js_in_iff allTiers_def allColours_def Object_prototype_def isDigit_def
        digitValue_def)

lemma digits_are_generation:
  assumes "ds \<noteq> []" and "list_all (isDigit 10) ds" and "rest = [] \<or> \<not> isDigit 10 (hd rest)"
    and "0 < digitsValue 10 ds" and "digitsValue 10 ds < 6"
  shows "isGeneration (parseInt (ds @ rest))"
    and "nat (the (parseInt (ds @ rest))) = digitsValue 10 ds"
    and "\<not> js_in (ds @ rest) allTiers" and "\<not> js_in (ds @ rest) allColours"
proof -
  from parseInt_digits [OF assms(1-4)] assms(5)
  show "isGeneration (parseInt (ds @ rest))" "nat (the (parseInt (ds @ rest))) = digitsValue 10 ds"
    using assms(4) by (simp_all add: isGeneration_def)
  obtain d ds' where ds: "ds = d # ds'" using assms(1) by (cases ds) auto
  with assms(2) have "isDigit 10 d" by simp
  with ds digit_not_keyword [of d "ds' @ rest"]
  show "\<not> js_in (ds @ rest) allTiers" "\<not> js_in (ds @ rest) allColours" by simp_all
qed

lemma show_nat_small: "n < 10 \<Longrightarrow> show_nat n \<noteq> ''__proto__'' \<and> show_nat n \<noteq> ''count''"
  using show_nat_digit [of n] by auto

text \<open>
  C10. A token that is neither a move nor an ability and that, trimmed and in lower
  case, starts with decimal digits \<open>ds\<close> denoting a number from 1 to 5 is classified
  as that generation, whatever follows the digits (\<open>rest\<close>): the generation becomes a
  member of \<open>gens\<close>, no other category and not the \<open>all\<close> flag changes, and the token
  is not refused. (Such a token is never a tier or a colour keyword.)
\<close>

theorem generation_by_numeric_prefix:
  assumes "\<not> exists (getMove T tok)" and "\<not> exists (getAbility T tok)"
    and "toLowerCase (trim tok) = ds @ rest"
    and "ds \<noteq> []" and "list_all (isDigit 10) ds" and "rest = [] \<or> \<not> isDigit 10 (hd rest)"
    and "0 < digitsValue 10 ds" and "digitsValue 10 ds < 6"
  shows "\<exists>q'. classify T C tok q = Inr q' \<and>
           set (members (gens q')) = insert (show_nat (digitsValue 10 ds)) (set (members (gens q))) \<and>
           moves q' = moves q \<and> ability q' = ability q \<and> tiers q' = tiers q \<and>
           colours q' = colours q \<and> types' q' = types' q \<and> showAll q' = showAll q"
proof -
  note g = digits_are_generation [OF assms(4-8)]
  have k: "token_kind T tok = Category Generation"
    using assms(1-3) g by (simp add: token_kind_def)
  have m: "member_name T Generation tok = show_nat (digitsValue 10 ds)"
    using assms(3) g(2) by (simp add: member_name_def)
  have s: "show_nat (digitsValue 10 ds) \<noteq> ''__proto__'' \<and> show_nat (digitsValue 10 ds) \<noteq> ''count''"
    using assms(8) show_nat_small by simp
  obtain q' where q': "classify T C tok q = Inr q'"
    using k by (auto simp add: classify_by_kind limit_def)
  from classify_category(1) [OF k q'] m
  have "gens q' = add_member (show_nat (digitsValue 10 ds)) (fst (note_category (gens q) (count q)))"
    by (simp add: category_object_def)
  then have 1: "set (members (gens q')) =
                  insert (show_nat (digitsValue 10 ds)) (set (members (gens q)))"
    using s by (simp add: members_add_member members_note_category)
  have 2: "moves q' = moves q" using classify_category(2) [OF k q', of Move]
    by (simp add: category_object_def)
  have 3: "ability q' = ability q" using classify_category(2) [OF k q', of Ability]
    by (simp add: category_object_def)
  have 4: "tiers q' = tiers q" using classify_category(2) [OF k q', of Tier]
    by (simp add: category_object_def)
  have 5: "colours q' = colours q" using classify_category(2) [OF k q', of Colour]
    by (simp add: category_object_def)
  have 6: "types' q' = types' q" using classify_category(2) [OF k q', of Type]
    by (simp add: category_object_def)
  have 7: "showAll q' = showAll q" using classify_category(4) [OF k q'] .
  from q' 1 2 3 4 5 6 7 show ?thesis by blast
qed

theorem generation_by_numeric_prefix_witness:
  "\<exists>q'. classify T23 C0 ''3x'' empty_query = Inr q' \<and> set (members (gens q')) = {''3''} \<and>
        types' q' = [] \<and> showAll q' = False"
proof -
  have h1: "\<not> exists (getMove T23 ''3x'')" by code_simp
  have h2: "\<not> exists (getAbility T23 ''3x'')" by code_simp
  have h3: "toLowerCase (trim ''3x'') = ''3'' @ ''x''" by code_simp
  have h4: "''3'' \<noteq> []" by simp
  have h5: "list_all (isDigit 10) ''3''" by code_simp
  have h6: "''x'' = [] \<or> \<not> isDigit 10 (hd ''x'')" by code_simp
  have h7: "0 < digitsValue 10 ''3''" by code_simp
  have h8: "digitsValue 10 ''3'' < 6" by code_simp
  have e1: "show_nat (digitsValue 10 ''3'') = ''3''" by code_simp
  have e2: "members (gens empty_query) = []" "types' empty_query = []"
    "showAll empty_query = False" by code_simp+
  from generation_by_numeric_prefix [OF h1 h2 h3 h4 h5 h6 h7 h8, of C0 empty_query]
  show ?thesis unfolding e1 e2 by auto
qed

lemma classify_all_append:
  "classify_all T C (xs @ ys) q =
     (case classify_all T C xs q of Inl r \<Rightarrow> Inl r | Inr q' \<Rightarrow> classify_all T C ys q')"
  by (induction xs arbitrary: q) (auto split: sum.splits)

lemma abort_at_token:
  assumes "canBroadcast C" and "target \<noteq> []"
    and "split_comma target = pre @ tok # post"
    and "classify_all T C pre empty_query = Inr q1"
    and "classify T C tok q1 = Inl r"
  shows "dexsearch T C G target = r"
  using assms by (simp add: dexsearch_def classify_all_append)

lemma only_all:
  assumes "\<forall>t \<in> set toks. token_kind T t = AllFlag \<or> token_kind T t = Ignored"
    and "\<not> broadcasting C"
  shows "classify_all T C toks q =
           Inr (q\<lparr>showAll := showAll q \<or> (\<exists>t \<in> set toks. token_kind T t = AllFlag)\<rparr>)"
  using assms
proof (induction toks arbitrary: q)
  case Nil
  then show ?case by simp
next
  case (Cons t ts)
  then show ?case
    by (cases "token_kind T t = AllFlag") (auto simp add: classify_by_kind)
qed

lemma distinct_search_order: "distinct search_order"
  by (simp add: search_order_def)

lemma all_in_search_order: "c \<in> set search_order"
  by (cases c) (simp_all add: search_order_def)

text \<open>The counter of the loop is the number of categories to apply.\<close>

lemma length_filter_one_more:
  "distinct xs \<Longrightarrow> c \<in> set xs \<Longrightarrow>
   length (filter (\<lambda>x. x = c \<or> P x) xs) = length (filter P xs) + (if P c then 0 else 1)"
proof (induction xs)
  case Nil
  then show ?case by simp
next
  case (Cons x xs)
  show ?case
  proof (cases "x = c")
    case True
    with Cons.prems have "c \<notin> set xs" by simp
    then have "filter (\<lambda>x. x = c \<or> P x) xs = filter P xs"
      by (auto intro: filter_cong)
    with True show ?thesis by simp
  next
    case False
    with Cons show ?thesis by simp
  qed
qed

lemma stored_count_step_positive:
  "0 < stored_count (add_member k (fst (note_category obj n)))"
  by (simp add: stored_count_step)

lemma classify_keeps_counter:
  assumes "classify T C tok q = Inr q'" and "count q = length (pending q)"
  shows "count q' = length (pending q')"
proof (cases "\<exists>c. token_kind T tok = Category c")
  case True
  then obtain c where k: "token_kind T tok = Category c" by blast
  note s = classify_category [OF k assms(1)]
  have "pending q' =
          filter (\<lambda>x. x = c \<or> 0 < stored_count (category_object x q)) search_order"
    unfolding pending_def
  proof (rule filter_cong [OF refl])
    fix x
    show "(0 < stored_count (category_object x q')) =
            (x = c \<or> 0 < stored_count (category_object x q))"
      using s(1) s(2) [of x] stored_count_step_positive by (cases "x = c") auto
  qed
  then have "length (pending q') =
               length (pending q) + (if 0 < stored_count (category_object c q) then 0 else 1)"
    using length_filter_one_more [OF distinct_search_order all_in_search_order]
    by (simp add: pending_def)
  with s(3) assms(2) show ?thesis by simp
next
  case False
  then have n: "\<forall>c. token_kind T tok \<noteq> Category c" by simp
  from classify_other [OF n assms(1)] assms(2) show ?thesis
    by (simp add: pending_def)
qed

lemma classify_all_keeps_counter:
  assumes "classify_all T C toks q = Inr q'" and "count q = length (pending q)"
  shows "count q' = length (pending q')"
  using assms
proof (induction toks arbitrary: q)
  case Nil
  then show ?case by simp
next
  case (Cons t ts)
  from Cons.prems(1) obtain q1 where s: "classify T C t q = Inr q1"
    and r: "classify_all T C ts q1 = Inr q'"
    by (auto split: sum.splits)
  from Cons.IH [OF r classify_keeps_counter [OF s Cons.prems(2)]] show ?case .
qed

lemma pending_empty_query: "pending empty_query = []"
  by (simp add: pending_def stored_count_def js_get_def)

lemma counter_after_classification:
  "classify_all T C toks empty_query = Inr q \<Longrightarrow> count q = length (pending q)"
  using classify_all_keeps_counter [of T C toks empty_query q]
  by (simp add: pending_empty_query) (simp add: empty_query_def)

text \<open>
  C6. A token of a category with a limit that comes after as many tokens of the same
  category as the limit allows aborts the query with the reply of that limit: a fifth
  move, a second ability, a third type (\<open>limit\<close> is 4, 1 and 2). This is for a token the
  loop reaches, the tokens before it having been classified. When the classification
  ends with the \<open>all\<close> flag set and no category populated, the query aborts with the
  reply that no search parameter other than \<open>all\<close> was found; that is the case of every
  query in which \<open>all\<close> is the only token that is classified, unless the command is
  broadcast and \<open>all\<close> itself is refused.
\<close>

theorem cardinality_limits:
  assumes "canBroadcast C" and "target \<noteq> []"
  shows "(\<forall>pre tok post q1 c.
            split_comma target = pre @ tok # post \<and>
            classify_all T C pre empty_query = Inr q1 \<and> plain_names T pre \<and>
            token_kind T tok = Category c \<and>
            limit c = Some (length (tokens_of T c pre)) \<longrightarrow>
            dexsearch T C G target = limit_reply c) \<and>
         (\<forall>q. classify_all T C (split_comma target) empty_query = Inr q \<and>
              showAll q \<and> pending q = [] \<longrightarrow>
            dexsearch T C G target = SendReply only_all_message) \<and>
         ((\<forall>t \<in> set (split_comma target). token_kind T t = AllFlag \<or> token_kind T t = Ignored) \<and>
          (\<exists>t \<in> set (split_comma target). token_kind T t = AllFlag) \<and> \<not> broadcasting C \<longrightarrow>
            dexsearch T C G target = SendReply only_all_message)"
proof (intro conjI allI impI)
  fix pre tok post q1 c
  assume a: "split_comma target = pre @ tok # post \<and>
            classify_all T C pre empty_query = Inr q1 \<and> plain_names T pre \<and>
            token_kind T tok = Category c \<and>
            limit c = Some (length (tokens_of T c pre))"
  then have "stored_count (category_object c q1) = length (tokens_of T c pre)"
    using classify_all_counts [of T C pre empty_query q1 c]
    by (simp add: stored_count_def js_get_def)
  with a have "classify T C tok q1 = Inl (limit_reply c)"
    using classify_limit by simp
  with a assms show "dexsearch T C G target = limit_reply c"
    using abort_at_token by blast
next
  fix q
  assume a: "classify_all T C (split_comma target) empty_query = Inr q \<and>
              showAll q \<and> pending q = []"
  then have "count q = 0" using counter_after_classification [of T C "split_comma target" q]
    by simp
  with a assms show "dexsearch T C G target = SendReply only_all_message"
    by (simp add: dexsearch_def)
next
  assume a: "(\<forall>t \<in> set (split_comma target). token_kind T t = AllFlag \<or> token_kind T t = Ignored) \<and>
          (\<exists>t \<in> set (split_comma target). token_kind T t = AllFlag) \<and> \<not> broadcasting C"
  then have "classify_all T C (split_comma target) empty_query = Inr (empty_query\<lparr>showAll := True\<rparr>)"
    using only_all [of "split_comma target" T C empty_query] by (simp add: empty_query_def)
  with assms show "dexsearch T C G target = SendReply only_all_message"
    by (simp add: dexsearch_def empty_query_def)
qed

theorem cardinality_limits_witness:
  "dexsearch T0 C0 G0 ''tackle,surf,fly,tackle,surf'' = SendReply ''Specify a maximum of 4 moves.'' \<and>
   dexsearch T0 C0 G0 ''blaze,torrent'' = SendReply ''Specify only one ability.'' \<and>
   dexsearch T0 C0 G0 ''fire type,water type,ice type'' =
     SendReply ''Specify a maximum of two types.'' \<and>
   dexsearch T0 C0 G0 ''all'' = SendReply only_all_message \<and>
   dexsearch T0 C0 G0 ''all, foo type'' = SendReply only_all_message"
proof -
  have c: "canBroadcast C0" by code_simp
  note st = cardinality_limits [OF c, THEN conjunct2, THEN conjunct1, rule_format]
  have f: "classify_all T0 C0 (split_comma ''all, foo type'') empty_query =
             Inr (empty_query\<lparr>showAll := True\<rparr>) \<and>
           showAll (empty_query\<lparr>showAll := True\<rparr>) \<and>
           pending (empty_query\<lparr>showAll := True\<rparr>) = []"
    by code_simp
  note lim = cardinality_limits [OF c, THEN conjunct1, rule_format]
  note al = cardinality_limits [OF c, THEN conjunct2, THEN conjunct2, rule_format]
  have m: "split_comma ''tackle,surf,fly,tackle,surf'' =
             [''tackle'', ''surf'', ''fly'', ''tackle''] @ ''surf'' # [] \<and>
           classify_all T0 C0 [''tackle'', ''surf'', ''fly'', ''tackle''] empty_query =
             Inr (empty_query\<lparr>moves := [(''count'', 4), (''Tackle'', 1), (''Surf'', 1), (''Fly'', 1)],
                              count := 1\<rparr>) \<and>
           plain_names T0 [''tackle'', ''surf'', ''fly'', ''tackle''] \<and>
           token_kind T0 ''surf'' = Category Move \<and>
           limit Move = Some (length (tokens_of T0 Move [''tackle'', ''surf'', ''fly'', ''tackle'']))"
    by code_simp
  have a: "split_comma ''blaze,torrent'' = [''blaze''] @ ''torrent'' # [] \<and>
           classify_all T0 C0 [''blaze''] empty_query =
             Inr (empty_query\<lparr>ability := [(''count'', 1), (''Blaze'', 1)], count := 1\<rparr>) \<and>
           plain_names T0 [''blaze''] \<and>
           token_kind T0 ''torrent'' = Category Ability \<and>
           limit Ability = Some (length (tokens_of T0 Ability [''blaze'']))"
    by code_simp
  have t: "split_comma ''fire type,water type,ice type'' =
             [''fire type'', ''water type''] @ ''ice type'' # [] \<and>
           classify_all T0 C0 [''fire type'', ''water type''] empty_query =
             Inr (empty_query\<lparr>types' := [(''count'', 2), (''Fire'', 1), (''Water'', 1)],
                              count := 1\<rparr>) \<and>
           plain_names T0 [''fire type'', ''water type''] \<and>
           token_kind T0 ''ice type'' = Category Type \<and>
           limit Type = Some (length (tokens_of T0 Type [''fire type'', ''water type'']))"
    by code_simp
  have o: "(\<forall>t \<in> set (split_comma ''all''). token_kind T0 t = AllFlag \<or> token_kind T0 t = Ignored) \<and>
           (\<exists>t \<in> set (split_comma ''all''). token_kind T0 t = AllFlag) \<and> \<not> broadcasting C0"
    by code_simp
  have r: "limit_reply Move = SendReply ''Specify a maximum of 4 moves.''"
    "limit_reply Ability = SendReply ''Specify only one ability.''"
    "limit_reply Type = SendReply ''Specify a maximum of two types.''"
    by (simp_all add: limit_reply_def)
  from lim [OF _ m, of G0] lim [OF _ a, of G0] lim [OF _ t, of G0] al [OF _ o, of G0]
    st [OF _ f, of G0] r
  show ?thesis by simp
qed

text \<open>
  C5 (as stated). The token \<open>1x\<close> is no move, no ability, no tier, no colour, no
  integer, not \<open>all\<close> and has no \<open>" type"\<close> in it; yet the query is not aborted: the
  token counts as generation 1 and the search answers with the species of that generation.
\<close>

theorem integer_token_counterexample:
  "\<not> exists (getMove T0 ''1x'') \<and> \<not> exists (getAbility T0 ''1x'') \<and>
   \<not> js_in ''1x'' allTiers \<and> \<not> js_in ''1x'' allColours \<and>
   \<not> list_all (isDigit 10) ''1x'' \<and> ''1x'' \<noteq> ''all'' \<and> indexOf ''1x'' '' type'' = None \<and>
   dexsearch T0 C0 G0 ''1x'' = SendReplyBox ''Charizard, Moltres, Vulpix, Squirtle''"
  by code_simp


text \<open>
  C5 (amended). \<open>token_kind\<close> gives the tests in their order: move lookup, ability
  lookup, tier keyword, colour keyword, a text from which \<open>parseInt\<close> reads a number from
  1 to 5, the word \<open>all\<close>, a text that contains \<open>" type"\<close> after the name of a type. The
  classifier follows that order. A token \<open>tok\<close> that the loop reaches acts by its kind: a
  token of a category makes its name a property of the object of that category and of no
  other, or is refused by the limit of the category; \<open>all\<close> sets the flag (or is refused
  when the command is broadcast); a token that passes no test and does not contain
  \<open>" type"\<close> makes the whole command answer with the error that names the trimmed token,
  and nothing else is replied.
\<close>

theorem classification_order:
  assumes "canBroadcast C" and "target \<noteq> []"
    and "split_comma target = pre @ tok # post"
    and "classify_all T C pre empty_query = Inr q1"
  shows "(token_kind T tok = Unrecognized \<longrightarrow>
            dexsearch T C G target = SendReply (unrecognized_message tok)) \<and>
         (\<forall>c. token_kind T tok = Category c \<longrightarrow>
            classify T C tok q1 = Inl (limit_reply c) \<or>
            (\<exists>q2. classify T C tok q1 = Inr q2 \<and>
                  js_in (member_name T c tok) (category_object c q2) \<and>
                  (\<forall>c'. c' \<noteq> c \<longrightarrow> category_object c' q2 = category_object c' q1) \<and>
                  showAll q2 = showAll q1)) \<and>
         (token_kind T tok = AllFlag \<longrightarrow>
            classify T C tok q1 = Inl (SendReply broadcast_all_message) \<or>
            (\<exists>q2. classify T C tok q1 = Inr q2 \<and> showAll q2 \<and>
                  (\<forall>c. category_object c q2 = category_object c q1)))"
proof (intro conjI allI impI)
  assume "token_kind T tok = Unrecognized"
  then have "classify T C tok q1 = Inl (SendReply (unrecognized_message tok))"
    by (simp add: classify_by_kind)
  with assms show "dexsearch T C G target = SendReply (unrecognized_message tok)"
    using abort_at_token by blast
next
  fix c
  assume k: "token_kind T tok = Category c"
  show "classify T C tok q1 = Inl (limit_reply c) \<or>
        (\<exists>q2. classify T C tok q1 = Inr q2 \<and>
              js_in (member_name T c tok) (category_object c q2) \<and>
              (\<forall>c'. c' \<noteq> c \<longrightarrow> category_object c' q2 = category_object c' q1) \<and>
              showAll q2 = showAll q1)"
  proof (cases "classify T C tok q1")
    case (Inl r)
    with k show ?thesis by (auto simp add: classify_by_kind split: if_splits)
  next
    case (Inr q2)
    from classify_category(1) [OF k Inr]
    have "js_in (member_name T c tok) (category_object c q2)"
      by (simp add: js_in_add_member)
    with Inr classify_category(2) [OF k Inr] classify_category(4) [OF k Inr]
    show ?thesis by simp
  qed
next
  assume "token_kind T tok = AllFlag"
  then show "classify T C tok q1 = Inl (SendReply broadcast_all_message) \<or>
        (\<exists>q2. classify T C tok q1 = Inr q2 \<and> showAll q2 \<and>
              (\<forall>c. category_object c q2 = category_object c q1))"
    by (simp add: classify_by_kind)
qed


theorem classification_order_witness:
  "dexsearch T0 C0 G0 ''fire type, zzz'' = SendReply (unrecognized_message '' zzz'')"
proof -
  have h1: "canBroadcast C0" by code_simp
  have h2: "''fire type, zzz'' \<noteq> []" by simp
  have h3: "split_comma ''fire type, zzz'' = [''fire type''] @ '' zzz'' # []" by code_simp
  have h4: "classify_all T0 C0 [''fire type''] empty_query =
              Inr (empty_query\<lparr>types' := [(''count'', 1), (''Fire'', 1)], count := 1\<rparr>)"
    by code_simp
  have k: "token_kind T0 '' zzz'' = Unrecognized" by code_simp
  from classification_order [OF h1 h2 h3 h4, of G0] k show ?thesis by blast
qed

section \<open>The reply of dexsearch\<close>

lemma render_empty:
  "render G all None = no_pokemon_found"
  "render G all (Some []) = no_pokemon_found"
  by (simp_all add: render_def)

text \<open>
  C4. Let \<open>R\<close> be the results of a search that was not aborted. With no result the reply
  is the fixed message, sent in a box like any list of results. With \<open>all\<close>, or with at
  most 10 results, the reply is every name, joined by commas. Otherwise the reply shows
  exactly 10 of the names, then the number \<open>|R| - 10\<close> of hidden results and the hint to
  search again with \<open>all\<close>. The sort with a random comparator is only assumed to keep the
  length of the array and to invent no name.
\<close>

theorem dexsearch_reply_format:
  assumes "canBroadcast C" and "target \<noteq> []"
    and "classify_all T C (split_comma target) empty_query = Inr q"
    and "\<not> (showAll q \<and> count q = 0)"
    and "search T (count q) q None = Inr results"
    and "R = (case results of None \<Rightarrow> [] | Some rs \<Rightarrow> rs)"
    and "length (sort_random G (map species R)) = length R"
    and "set (sort_random G (map species R)) \<subseteq> set (map species R)"
  shows "(R = [] \<longrightarrow> dexsearch T C G target = SendReplyBox no_pokemon_found) \<and>
         (R \<noteq> [] \<and> (showAll q \<or> length R \<le> 10) \<longrightarrow>
            dexsearch T C G target = SendReplyBox (join (map species R) '', '')) \<and>
         (\<not> showAll q \<and> 10 < length R \<longrightarrow>
            (\<exists>shown. length shown = 10 \<and> set shown \<subseteq> set (map species R) \<and>
               dexsearch T C G target =
                 SendReplyBox (join shown '', '' @ '', and '' @
                               string G (int (length R) - 10) @ redo_hint)))"
proof -
  have d: "dexsearch T C G target = SendReplyBox (render G (showAll q) results)"
    using assms(1-5) by (simp add: dexsearch_def)
  have r: "render G (showAll q) results = render G (showAll q) (Some R)"
    using assms(6) by (cases results) (simp_all add: render_empty)
  have c1: "R = [] \<Longrightarrow> render G (showAll q) (Some R) = no_pokemon_found"
    by (simp add: render_empty)
  have c2: "R \<noteq> [] \<Longrightarrow> showAll q \<or> length R \<le> 10 \<Longrightarrow>
              render G (showAll q) (Some R) = join (map species R) '', ''"
    by (auto simp add: render_def)
  have c3: "\<not> showAll q \<Longrightarrow> 10 < length R \<Longrightarrow>
       render G (showAll q) (Some R) =
         join (take 10 (sort_random G (map species R))) '', '' @ '', and '' @
         string G (int (length R) - 10) @ redo_hint"
    by (auto simp add: render_def Let_def)
  have l: "10 < length R \<Longrightarrow> length (take 10 (sort_random G (map species R))) = 10"
    using assms(7) by simp
  have s: "set (take 10 (sort_random G (map species R))) \<subseteq> set (map species R)"
    using assms(8) set_take_subset by fastforce
  show ?thesis
  proof (intro conjI impI)
    assume "R = []"
    then show "dexsearch T C G target = SendReplyBox no_pokemon_found"
      using d r c1 by simp
  next
    assume "R \<noteq> [] \<and> (showAll q \<or> length R \<le> 10)"
    then show "dexsearch T C G target = SendReplyBox (join (map species R) '', '')"
      using d r c2 by simp
  next
    assume a: "\<not> showAll q \<and> 10 < length R"
    have "dexsearch T C G target =
            SendReplyBox (join (take 10 (sort_random G (map species R))) '', '' @ '', and '' @
                          string G (int (length R) - 10) @ redo_hint)"
      using a d r c3 by simp
    with a l s show "\<exists>shown. length shown = 10 \<and> set shown \<subseteq> set (map species R) \<and>
               dexsearch T C G target =
                 SendReplyBox (join shown '', '' @ '', and '' @
                               string G (int (length R) - 10) @ redo_hint)"
      by blast
  qed
qed

text \<open>The theorem at 23 results without \<open>all\<close>: 10 names and 13 hidden.\<close>

theorem dexsearch_reply_format_witness:
  "\<exists>shown. length shown = 10 \<and> set shown \<subseteq> set (map show_nat [1 ..< 24]) \<and>
      dexsearch T23 C0 G0 ''ou'' = SendReplyBox (join shown '', '' @ '', and 13'' @ redo_hint)"
proof -
  let ?R = "map plain (map show_nat [1 ..< 24])"
  have h1: "canBroadcast C0" by code_simp
  have h2: "''ou'' \<noteq> []" by simp
  have h3: "classify_all T23 C0 (split_comma ''ou'') empty_query = Inr q_ou" by code_simp
  have h4: "\<not> (showAll q_ou \<and> count q_ou = 0)" by code_simp
  have h5: "search T23 (count q_ou) q_ou None = Inr (Some ?R)" by code_simp
  have h6: "?R = (case Some ?R of None \<Rightarrow> [] | Some rs \<Rightarrow> rs)" by simp
  have h7: "length (sort_random G0 (map species ?R)) = length ?R" by code_simp
  have h8: "set (sort_random G0 (map species ?R)) \<subseteq> set (map species ?R)" by code_simp
  have e1: "\<not> showAll q_ou \<and> 10 < length ?R" by code_simp
  have e2: "string G0 (int (length ?R) - 10) = ''13''" by code_simp
  have e3: "map species ?R = map show_nat [1 ..< 24]" by code_simp
  from dexsearch_reply_format [OF h1 h2 h3 h4 h5 h6 h7 h8] e1
  have "\<exists>shown. length shown = 10 \<and> set shown \<subseteq> set (map species ?R) \<and>
          dexsearch T23 C0 G0 ''ou'' =
            SendReplyBox (join shown '', '' @ '', and '' @
                          string G0 (int (length ?R) - 10) @ redo_hint)"
    by blast
  then show ?thesis
    unfolding e2 e3 by simp
qed

text \<open>
  C8. The random sort is the only thing that can differ between two evaluations of one
  query on the same data. Whatever the two sorts \<open>r1\<close> and \<open>r2\<close> do, either the two
  replies are equal, or both come from the same list of results, show 10 names each and
  end with the same number of hidden results.
\<close>

theorem dexsearch_sample_only_differs:
  "dexsearch T C (G\<lparr>sort_random := r1\<rparr>) target =
     dexsearch T C (G\<lparr>sort_random := r2\<rparr>) target \<or>
   (\<exists>q rs. classify_all T C (split_comma target) empty_query = Inr q \<and>
            search T (count q) q None = Inr (Some rs) \<and> 10 < length rs \<and>
            dexsearch T C (G\<lparr>sort_random := r1\<rparr>) target =
              SendReplyBox (join (take 10 (r1 (map species rs))) '', '' @ '', and '' @
                            string G (int (length rs) - 10) @ redo_hint) \<and>
            dexsearch T C (G\<lparr>sort_random := r2\<rparr>) target =
              SendReplyBox (join (take 10 (r2 (map species rs))) '', '' @ '', and '' @
                            string G (int (length rs) - 10) @ redo_hint))"
  by (auto simp add: dexsearch_def render_def Let_def split: sum.splits option.splits)

text \<open>Two sorts on 23 results: the names shown differ, the 13 hidden results do not.\<close>

theorem dexsearch_sample_only_differs_witness:
  "dexsearch T23 C0 (G0\<lparr>sort_random := id\<rparr>) ''ou'' \<noteq>
     dexsearch T23 C0 (G0\<lparr>sort_random := rev\<rparr>) ''ou'' \<and>
   (\<exists>q rs. classify_all T23 C0 (split_comma ''ou'') empty_query = Inr q \<and>
            search T23 (count q) q None = Inr (Some rs) \<and> 10 < length rs \<and>
            dexsearch T23 C0 (G0\<lparr>sort_random := id\<rparr>) ''ou'' =
              SendReplyBox (join (take 10 (id (map species rs))) '', '' @ '', and '' @
                            string G0 (int (length rs) - 10) @ redo_hint) \<and>
            dexsearch T23 C0 (G0\<lparr>sort_random := rev\<rparr>) ''ou'' =
              SendReplyBox (join (take 10 (rev (map species rs))) '', '' @ '', and '' @
                            string G0 (int (length rs) - 10) @ redo_hint))"
proof -
  have d: "dexsearch T23 C0 (G0\<lparr>sort_random := id\<rparr>) ''ou'' \<noteq>
             dexsearch T23 C0 (G0\<lparr>sort_random := rev\<rparr>) ''ou''"
    by code_simp
  with dexsearch_sample_only_differs
    [where T = T23 and C = C0 and G = G0 and target = "''ou''" and ?r1.0 = id and ?r2.0 = rev]
  show ?thesis by blast
qed

section \<open>The search\<close>

lemma js_in_members: "k \<notin> set reserved \<Longrightarrow> js_in k obj = (k \<in> set (members obj))"
  by (auto simp add: reserved_def js_in_iff set_members)

lemma undefined_not_reserved: "''undefined'' \<notin> set reserved"
  by (simp add: reserved_def Object_prototype_def)

lemma stored_count_Some: "0 < n \<Longrightarrow> (js_get obj ''count'' = Some n) = (stored_count obj = n)"
  by (auto simp add: stored_count_def split: option.splits)

lemma matches_types_members:
  assumes "\<forall>t \<in> set (template.types mon). t \<notin> set reserved"
  shows "matches_types ts mon =
           (if stored_count ts = 1
            then type_slot mon 0 \<in> set (members ts) \<or> type_slot mon 1 \<in> set (members ts)
            else type_slot mon 0 \<in> set (members ts) \<and> type_slot mon 1 \<in> set (members ts))"
proof -
  have "type_slot mon i \<notin> set reserved" for i
    using assms undefined_not_reserved by (simp add: type_slot_def)
  then show ?thesis
    by (simp add: matches_types_def js_in_members stored_count_Some)
qed


text \<open>
  C2 (as stated). The search \<open>fire type, fire type\<close> requests one type, Fire, and
  Charizard holds it in its first slot; still Charizard does not match, and no species
  does: the object of the types counts two tokens, so both slots are required to be
  requested types.
\<close>

theorem repeated_type_counterexample:
  "classify_all T0 C0 (split_comma ''fire type, fire type'') empty_query = Inr q_fire_twice \<and>
   members (types' q_fire_twice) = [''Fire''] \<and>
   template.types (getTemplate T0 ''charizard'') = [''Fire'', ''Flying''] \<and>
   \<not> matches_types (types' q_fire_twice) (getTemplate T0 ''charizard'') \<and>
   dexsearch T0 C0 G0 ''fire type, fire type'' = SendReplyBox no_pokemon_found"
  by code_simp

text \<open>
  C2 (amended). Let a species have one or two type slots, different from each other, none
  of them a reserved property name. If one type token was given, naming \<open>X\<close>, the
  species matches iff \<open>X\<close> is in one of its slots. If two type tokens were given, naming
  two different types \<open>X\<close> and \<open>Y\<close>, the species matches iff it holds both \<open>X\<close> and
  \<open>Y\<close>, in whichever order.
\<close>

theorem type_filter_semantics:
  assumes "1 \<le> length (template.types mon)" and "length (template.types mon) \<le> 2"
    and "distinct (template.types mon)"
    and "\<forall>t \<in> set (template.types mon). t \<notin> set reserved"
    and "X \<noteq> ''undefined''" and "Y \<noteq> ''undefined''" and "X \<noteq> Y"
  shows "(stored_count ts = 1 \<and> set (members ts) = {X} \<longrightarrow>
            matches_types ts mon = (X \<in> set (template.types mon))) \<and>
         (stored_count ts = 2 \<and> set (members ts) = {X, Y} \<longrightarrow>
            matches_types ts mon =
              (X \<in> set (template.types mon) \<and> Y \<in> set (template.types mon)))"
proof -
  consider a where "template.types mon = [a]" | a b where "template.types mon = [a, b]"
    using assms(1,2)
    by (cases "template.types mon"; cases "tl (template.types mon)";
        cases "tl (tl (template.types mon))") auto
  then show ?thesis
  proof cases
    case 1
    then have s: "type_slot mon 0 = a" "type_slot mon 1 = ''undefined''"
      by (simp_all add: type_slot_def)
    show ?thesis
      using 1 s assms(5-7) by (auto simp add: matches_types_members [OF assms(4)])
  next
    case 2
    then have s: "type_slot mon 0 = a" "type_slot mon 1 = b"
      by (simp_all add: type_slot_def)
    show ?thesis
      using 2 s assms(3,7) by (auto simp add: matches_types_members [OF assms(4)])
  qed
qed

theorem type_filter_semantics_witness:
  "matches_types ts_fire (getTemplate T0 ''vulpix'') \<and>
   matches_types ts_flying_fire (getTemplate T0 ''charizard'') \<and>
   \<not> matches_types ts_flying_fire (getTemplate T0 ''vulpix'')"
proof -
  have v: "template.types (getTemplate T0 ''vulpix'') = [''Fire'']" by code_simp
  have c: "template.types (getTemplate T0 ''charizard'') = [''Fire'', ''Flying'']" by code_simp
  have r: "''Fire'' \<notin> set reserved" "''Flying'' \<notin> set reserved" by code_simp+
  have o: "stored_count ts_fire = 1 \<and> set (members ts_fire) = {''Fire''}" by code_simp
  have t: "stored_count ts_flying_fire = 2 \<and> set (members ts_flying_fire) = {''Flying'', ''Fire''}"
    by code_simp
  have 1: "matches_types ts_fire (getTemplate T0 ''vulpix'')"
    using type_filter_semantics
      [of "getTemplate T0 ''vulpix''" "''Fire''" "''Flying''" ts_fire, THEN conjunct1] o
    by (simp add: v r)
  have 2: "matches_types ts_flying_fire (getTemplate T0 ''charizard'')"
    using type_filter_semantics
      [of "getTemplate T0 ''charizard''" "''Flying''" "''Fire''" ts_flying_fire, THEN conjunct2] t
    by (simp add: c r)
  have 3: "\<not> matches_types ts_flying_fire (getTemplate T0 ''vulpix'')"
    using type_filter_semantics
      [of "getTemplate T0 ''vulpix''" "''Flying''" "''Fire''" ts_flying_fire, THEN conjunct2] t
    by (simp add: v r)
  from 1 2 3 show ?thesis by blast
qed

lemma distinct_pending: "distinct (pending q)"
  by (simp add: pending_def distinct_search_order)

lemma pending_head:
  assumes "pending q = c # cs"
  shows "0 < stored_count (category_object c q)"
proof -
  have "c \<in> set (pending q)" using assms by simp
  then show ?thesis by (simp add: pending_def)
qed

lemma pending_done_with:
  assumes "pending q = c # cs"
  shows "pending (done_with c q) = cs"
proof -
  have "pending (done_with c q) = filter (\<lambda>x. x \<noteq> c) (pending q)"
    by (auto simp add: pending_def done_with_def category_object_set_category
          stored_count_js_set intro: filter_cong)
  also have "\<dots> = filter (\<lambda>x. x \<noteq> c) cs" using assms by simp
  also have "\<dots> = cs"
    using distinct_pending [of q] assms by (auto simp add: filter_id_conv)
  finally show ?thesis .
qed

lemma pending_first:
  assumes "pending q = c # cs"
  shows "(c = Type \<longrightarrow> positive (js_get (types' q) ''count'')) \<and>
         (c = Tier \<longrightarrow> \<not> positive (js_get (types' q) ''count'') \<and>
                         positive (js_get (tiers q) ''count'')) \<and>
         (c = Ability \<longrightarrow> \<not> positive (js_get (types' q) ''count'') \<and>
                         \<not> positive (js_get (tiers q) ''count'') \<and>
                         positive (js_get (ability q) ''count'')) \<and>
         (c = Colour \<longrightarrow> \<not> positive (js_get (types' q) ''count'') \<and>
                         \<not> positive (js_get (tiers q) ''count'') \<and>
                         \<not> positive (js_get (ability q) ''count'') \<and>
                         positive (js_get (colours q) ''count'')) \<and>
         (c = Move \<longrightarrow> \<not> positive (js_get (types' q) ''count'') \<and>
                         \<not> positive (js_get (tiers q) ''count'') \<and>
                         \<not> positive (js_get (ability q) ''count'') \<and>
                         \<not> positive (js_get (colours q) ''count'') \<and>
                         positive (js_get (moves q) ''count'')) \<and>
         (c = Generation \<longrightarrow> \<not> positive (js_get (types' q) ''count'') \<and>
                         \<not> positive (js_get (tiers q) ''count'') \<and>
                         \<not> positive (js_get (ability q) ''count'') \<and>
                         \<not> positive (js_get (colours q) ''count'') \<and>
                         \<not> positive (js_get (moves q) ''count'') \<and>
                         positive (js_get (gens q) ''count''))"
  using assms
  by (simp add: pending_def search_order_def positive_stored category_object_def
        split: if_splits)

lemma search_pass_pending:
  assumes "pending q = c # cs"
  shows "search_pass T q res =
           (case apply_category T q c (working T q res) of
              Inl r \<Rightarrow> Inl r
            | Inr rs \<Rightarrow> Inr (done_with c q, Some rs))"
  using pending_first [OF assms]
  by (cases c)
     (auto simp add: search_pass_def apply_category_def working_def done_with_def
        set_category_def category_object_def split: sum.splits)

lemma search_pass_nothing:
  assumes "pending q = []"
  shows "search_pass T q res = Inr (q, Some [])"
  using assms
  by (simp add: pending_def search_order_def positive_stored category_object_def
        search_pass_def split: if_splits)

lemma apply_category_cong:
  "category_object c q' = category_object c q \<Longrightarrow> apply_category T q' c = apply_category T q c"
  by (cases c) (simp_all add: apply_category_def category_object_def fun_eq_iff)

lemma category_object_done_with:
  "c' \<noteq> c \<Longrightarrow> category_object c' (done_with c q) = category_object c' q"
  by (simp add: done_with_def category_object_set_category)

lemma apply_categories_done_with:
  "c \<notin> set cs \<Longrightarrow> apply_categories T (done_with c q) cs rs = apply_categories T q cs rs"
proof (induction cs arbitrary: rs)
  case Nil
  then show ?case by simp
next
  case (Cons d ds)
  then have n: "d \<noteq> c" and m: "c \<notin> set ds" by auto
  have e: "apply_category T (done_with c q) d = apply_category T q d"
    by (rule apply_category_cong) (simp add: category_object_done_with n)
  show ?case by (simp add: e Cons.IH [OF m] split: sum.splits)
qed

lemma search_some:
  "length (pending q) = n \<Longrightarrow>
   search T n q (Some rs) =
     (case apply_categories T q (pending q) rs of Inl r \<Rightarrow> Inl r | Inr rs' \<Rightarrow> Inr (Some rs'))"
proof (induction n arbitrary: q rs)
  case 0
  then show ?case by simp
next
  case (Suc n)
  then obtain c cs where p: "pending q = c # cs" by (cases "pending q") auto
  have d: "c \<notin> set cs" using distinct_pending [of q] p by simp
  have l: "length (pending (done_with c q)) = n"
    using Suc.prems p pending_done_with [OF p] by simp
  show ?case
  proof (cases "apply_category T q c rs")
    case (Inl r)
    then show ?thesis
      using p by (simp add: search_pass_pending [OF p] working_def)
  next
    case (Inr rs')
    then have "search T (Suc n) q (Some rs) = search T n (done_with c q) (Some rs')"
      by (simp add: search_pass_pending [OF p] working_def)
    also have "\<dots> = (case apply_categories T (done_with c q) cs rs' of
                        Inl r \<Rightarrow> Inl r | Inr rs'' \<Rightarrow> Inr (Some rs''))"
      using Suc.IH [OF l] pending_done_with [OF p] by simp
    also have "\<dots> = (case apply_categories T q cs rs' of
                        Inl r \<Rightarrow> Inl r | Inr rs'' \<Rightarrow> Inr (Some rs''))"
      using apply_categories_done_with [OF d] by simp
    finally show ?thesis using p Inr by simp
  qed
qed

lemma search_from_start:
  assumes "length (pending q) = n" and "pending q \<noteq> []"
  shows "search T n q None =
     (case apply_categories T q (pending q) (initial_results T q) of
        Inl r \<Rightarrow> Inl r | Inr rs' \<Rightarrow> Inr (Some rs'))"
proof -
  obtain c cs where p: "pending q = c # cs" using assms(2) by (cases "pending q") auto
  obtain m where n: "n = Suc m" using assms p by (cases n) auto
  have d: "c \<notin> set cs" using distinct_pending [of q] p by simp
  have l: "length (pending (done_with c q)) = m"
    using assms(1) n p pending_done_with [OF p] by simp
  show ?thesis
  proof (cases "apply_category T q c (initial_results T q)")
    case (Inl r)
    then show ?thesis
      using p n by (simp add: search_pass_pending [OF p] working_def)
  next
    case (Inr rs')
    then have "search T n q None = search T m (done_with c q) (Some rs')"
      using n by (simp add: search_pass_pending [OF p] working_def)
    also have "\<dots> = (case apply_categories T (done_with c q) cs rs' of
                        Inl r \<Rightarrow> Inl r | Inr rs'' \<Rightarrow> Inr (Some rs''))"
      using search_some [OF l] pending_done_with [OF p] by simp
    also have "\<dots> = (case apply_categories T q cs rs' of
                        Inl r \<Rightarrow> Inl r | Inr rs'' \<Rightarrow> Inr (Some rs''))"
      using apply_categories_done_with [OF d] by simp
    finally show ?thesis using p Inr by simp
  qed
qed

text \<open>The loop over the requested moves, for one species.\<close>

lemma check_moves_skip:
  "filter (\<lambda>k. id' (getMove T k) \<noteq> ''count'') ks = [] \<Longrightarrow>
   check_moves T tmpl ks lset p = Inr p"
  by (induction ks) (auto simp add: Let_def split: if_splits)

lemma check_moves_learns:
  "learns_all T tmpl (filter (\<lambda>k. id' (getMove T k) \<noteq> ''count'') ks) lset \<Longrightarrow>
   filter (\<lambda>k. id' (getMove T k) \<noteq> ''count'') ks \<noteq> [] \<or> \<not> p \<Longrightarrow>
   check_moves T tmpl ks lset p = Inr False"
proof (induction ks arbitrary: lset p)
  case Nil
  then show ?case by simp
next
  case (Cons k ks)
  show ?case
  proof (cases "id' (getMove T k) = ''count''")
    case True
    with Cons show ?thesis by (simp add: Let_def)
  next
    case False
    obtain pr l' where c: "checkLearnset T (getMove T k) tmpl lset = (pr, l')"
      by (cases "checkLearnset T (getMove T k) tmpl lset")
    from Cons.prems(1) False c have e: "exists (getMove T k)" and n: "\<not> pr"
      and r: "learns_all T tmpl (filter (\<lambda>k. id' (getMove T k) \<noteq> ''count'') ks) l'"
      by auto
    have "check_moves T tmpl ks l' pr = Inr False"
      using Cons.IH [OF r] n by simp
    with False e n c show ?thesis by (simp add: Let_def)
  qed
qed

lemma check_moves_false:
  "check_moves T tmpl ks lset p = Inr False \<Longrightarrow>
   filter (\<lambda>k. id' (getMove T k) \<noteq> ''count'') ks \<noteq> [] \<or> \<not> p \<Longrightarrow>
   learns_all T tmpl (filter (\<lambda>k. id' (getMove T k) \<noteq> ''count'') ks) lset"
proof (induction ks arbitrary: lset p)
  case Nil
  then show ?case by simp
next
  case (Cons k ks)
  show ?case
  proof (cases "id' (getMove T k) = ''count''")
    case True
    with Cons show ?thesis by (simp add: Let_def)
  next
    case False
    obtain pr l' where c: "checkLearnset T (getMove T k) tmpl lset = (pr, l')"
      by (cases "checkLearnset T (getMove T k) tmpl lset")
    from Cons.prems(1) False c have e: "exists (getMove T k)" and n: "\<not> pr"
      and r: "check_moves T tmpl ks l' pr = Inr False"
      by (auto simp add: Let_def split: if_splits)
    have "learns_all T tmpl (filter (\<lambda>k. id' (getMove T k) \<noteq> ''count'') ks) l'"
      using Cons.IH [OF r] n by simp
    with False e n c show ?thesis by (simp add: Let_def)
  qed
qed


text \<open>The loop over the species of the move category.\<close>

lemma filter_moves_result:
  "filter_moves T mv xs acc p = Inr rs \<Longrightarrow> requested_moves T mv \<noteq> [] \<or> \<not> p \<Longrightarrow>
   rs = acc @ filter (\<lambda>mon. learns_all T (getTemplate T (id' mon)) (requested_moves T mv)
                                new_lsetData) xs"
proof (induction xs arbitrary: acc p)
  case Nil
  then show ?case by simp
next
  case (Cons m ms)
  let ?t = "getTemplate T (id' m)"
  from Cons.prems(1) obtain p' where c: "check_moves T ?t (js_keys mv) new_lsetData p = Inr p'"
    and r: "filter_moves T mv ms (if \<not> p' then acc @ [m] else acc) p' = Inr rs"
    by (auto split: sum.splits)
  have l: "p' = (\<not> learns_all T ?t (requested_moves T mv) new_lsetData)"
  proof (cases p')
    case True
    have "\<not> learns_all T ?t (requested_moves T mv) new_lsetData"
    proof
      assume "learns_all T ?t (requested_moves T mv) new_lsetData"
      from check_moves_learns [of T ?t "js_keys mv" new_lsetData p] this Cons.prems(2)
      have "check_moves T ?t (js_keys mv) new_lsetData p = Inr False"
        by (simp add: requested_moves_def)
      with c True show False by simp
    qed
    with True show ?thesis by simp
  next
    case False
    with c check_moves_false [of T ?t "js_keys mv" new_lsetData p] Cons.prems(2)
    show ?thesis by (simp add: requested_moves_def)
  qed
  have i: "requested_moves T mv \<noteq> [] \<or> \<not> p'"
  proof (cases "requested_moves T mv = []")
    case True
    then have "check_moves T ?t (js_keys mv) new_lsetData p = Inr p"
      using check_moves_skip by (simp add: requested_moves_def)
    with c Cons.prems(2) True show ?thesis by simp
  next
    case False
    then show ?thesis by simp
  qed
  from Cons.IH [OF r i] l show ?case by simp
qed


lemma show_nat_not_reserved: "show_nat n \<notin> set reserved"
proof
  assume a: "show_nat n \<in> set reserved"
  have "n mod 10 < length ''0123456789''" by simp
  then have "''0123456789'' ! (n mod 10) \<in> set ''0123456789''" by (rule nth_mem)
  then have "last (show_nat n) \<in> set ''0123456789''" by (simp only: last_show_nat)
  moreover have "\<forall>r \<in> set reserved. last r \<notin> set ''0123456789''"
    by (simp add: reserved_def Object_prototype_def)
  ultimately show False using a by blast
qed

lemma cap_not_reserved: "''cap'' \<notin> set reserved"
  by (simp add: reserved_def Object_prototype_def)

lemma set_initial_results:
  "set (initial_results T q) =
     {mon \<in> set (map (getTemplate T) (Pokedex T)).
        tier mon \<noteq> ''Illegal'' \<and> (tier mon = ''CAP'' \<longrightarrow> ''cap'' \<in> set (members (tiers q)))}"
  by (auto simp add: initial_results_def js_in_members [OF cap_not_reserved])

lemma set_ability_hits:
  "set (concat (map (ability_hits T ab) rs)) =
     {mon \<in> set rs. \<exists>a \<in> set (abilities mon). js_in (toString (getAbility T a)) ab}"
  by (auto simp add: ability_hits_def)

lemma apply_category_subset:
  assumes "apply_category T q c rs = Inr rs'"
  shows "set rs' \<subseteq> set rs"
proof (cases c)
  case Move
  with assms have "filter_moves T (moves q) rs [] False = Inr rs'"
    by (simp add: apply_category_def)
  from filter_moves_result [OF this] show ?thesis by auto
next
  case Ability
  with assms have "rs' = concat (map (ability_hits T (ability q)) rs)"
    by (simp add: apply_category_def)
  then have "set rs' = {mon \<in> set rs. \<exists>a \<in> set (abilities mon).
                          js_in (toString (getAbility T a)) (ability q)}"
    by (simp only: set_ability_hits)
  then show ?thesis by blast
qed (use assms in \<open>auto simp add: apply_category_def\<close>)

lemma apply_category_set:
  assumes "\<forall>mon \<in> set rs. ordinary_species T mon" and "apply_category T q c rs = Inr rs'"
  shows "set rs' = {mon \<in> set rs. satisfies T q c mon}"
proof (cases c)
  case Move
  with assms have "filter_moves T (moves q) rs [] False = Inr rs'"
    by (simp add: apply_category_def)
  from filter_moves_result [OF this] Move show ?thesis by (auto simp add: satisfies_def)
next
  case Ability
  with assms have "rs' = concat (map (ability_hits T (ability q)) rs)"
    by (simp add: apply_category_def)
  then have "set rs' = {mon \<in> set rs. \<exists>a \<in> set (abilities mon).
                          js_in (toString (getAbility T a)) (ability q)}"
    by (simp only: set_ability_hits)
  also have "\<dots> = {mon \<in> set rs. satisfies T q Ability mon}"
    using assms(1) by (auto simp add: satisfies_def ordinary_species_def js_in_members)
  finally show ?thesis using Ability by simp
next
  case Tier
  with assms show ?thesis
    by (auto simp add: apply_category_def satisfies_def ordinary_species_def js_in_members)
next
  case Colour
  with assms show ?thesis
    by (auto simp add: apply_category_def satisfies_def ordinary_species_def js_in_members)
next
  case Generation
  with assms show ?thesis
    by (auto simp add: apply_category_def satisfies_def js_in_members [OF show_nat_not_reserved])
next
  case Type
  have "matches_types (types' q) mon = satisfies T q Type mon" if "mon \<in> set rs" for mon
    using that assms(1) matches_types_members [of mon "types' q"]
    by (simp add: satisfies_def ordinary_species_def)
  with Type assms(2) show ?thesis by (auto simp add: apply_category_def)
qed

lemma apply_categories_set:
  "\<forall>mon \<in> set rs. ordinary_species T mon \<Longrightarrow> apply_categories T q cs rs = Inr rs' \<Longrightarrow>
   set rs' = {mon \<in> set rs. \<forall>c \<in> set cs. satisfies T q c mon}"
proof (induction cs arbitrary: rs)
  case Nil
  then show ?case by simp
next
  case (Cons c cs)
  from Cons.prems(2) obtain rs1 where a: "apply_category T q c rs = Inr rs1"
    and r: "apply_categories T q cs rs1 = Inr rs'"
    by (auto split: sum.splits)
  have s: "set rs1 = {mon \<in> set rs. satisfies T q c mon}"
    using apply_category_set [OF Cons.prems(1) a] .
  then have o: "\<forall>mon \<in> set rs1. ordinary_species T mon" using Cons.prems(1) by simp
  from Cons.IH [OF o r] s show ?case by auto
qed

text \<open>
  C1 (as stated). The query \<open>foo type\<close> is not aborted and populates no category. The
  claim would have the search return the whole catalog but the illegal and the CAP
  species, here four species; the loop does not run, \<open>results\<close> stays undefined and the
  reply is that no species was found.
\<close>

theorem no_category_counterexample:
  "classify_all T0 C0 (split_comma ''foo type'') empty_query = Inr empty_query \<and>
   search T0 (count empty_query) empty_query None = Inr None \<and>
   dexsearch T0 C0 G0 ''foo type'' = SendReplyBox no_pokemon_found \<and>
   map species (initial_results T0 empty_query) =
     [''Charizard'', ''Moltres'', ''Vulpix'', ''Squirtle'']"
  by code_simp

text \<open>
  C1 (amended). Take a query that is classified without abort and populates at least one
  category, on data whose species carry no reserved property name as a tier, colour,
  type or ability. Then the loop of the search is the application of every populated
  category, once each, in the order Type, Tier, Ability, Colour, Move, Generation
  (\<open>pending q\<close>), starting from the catalog without the species of tier Illegal and,
  unless \<open>cap\<close> is a requested tier, of tier CAP; each application keeps a subset of the
  working set; and when the search ends without abort, its result is, as a set, exactly
  the species of that starting set that satisfy every populated category.
\<close>

theorem search_applies_each_category:
  assumes "classify_all T C toks empty_query = Inr q" and "ordinary_names T"
    and "pending q \<noteq> []"
  shows "search T (count q) q None =
           (case apply_categories T q (pending q) (initial_results T q) of
              Inl r \<Rightarrow> Inl r | Inr rs \<Rightarrow> Inr (Some rs)) \<and>
         (\<forall>c rs rs'. apply_category T q c rs = Inr rs' \<longrightarrow> set rs' \<subseteq> set rs) \<and>
         (\<forall>results. search T (count q) q None = Inr results \<longrightarrow>
            (\<exists>rs. results = Some rs \<and>
               set rs = {mon \<in> set (map (getTemplate T) (Pokedex T)).
                           tier mon \<noteq> ''Illegal'' \<and>
                           (tier mon = ''CAP'' \<longrightarrow> ''cap'' \<in> set (members (tiers q))) \<and>
                           (\<forall>c \<in> set (pending q). satisfies T q c mon)}))"
proof (intro conjI allI impI)
  have n: "length (pending q) = count q"
    using counter_after_classification [OF assms(1)] by simp
  show s: "search T (count q) q None =
           (case apply_categories T q (pending q) (initial_results T q) of
              Inl r \<Rightarrow> Inl r | Inr rs \<Rightarrow> Inr (Some rs))"
    using search_from_start [OF n assms(3)] .
  fix results
  assume "search T (count q) q None = Inr results"
  with s obtain rs where a: "apply_categories T q (pending q) (initial_results T q) = Inr rs"
    and r: "results = Some rs"
    by (auto split: sum.splits)
  have o: "\<forall>mon \<in> set (initial_results T q). ordinary_species T mon"
    using assms(2) by (auto simp add: set_initial_results ordinary_names_def)
  from apply_categories_set [OF o a] r
  show "\<exists>rs. results = Some rs \<and>
               set rs = {mon \<in> set (map (getTemplate T) (Pokedex T)).
                           tier mon \<noteq> ''Illegal'' \<and>
                           (tier mon = ''CAP'' \<longrightarrow> ''cap'' \<in> set (members (tiers q))) \<and>
                           (\<forall>c \<in> set (pending q). satisfies T q c mon)}"
    by (auto simp add: set_initial_results)
next
  fix c rs rs'
  assume "apply_category T q c rs = Inr rs'"
  then show "set rs' \<subseteq> set rs" by (rule apply_category_subset)
qed

theorem search_applies_each_category_witness:
  "search T0 (count q_fire_ou) q_fire_ou None = Inr (Some [getTemplate T0 ''charizard'']) \<and>
   {mon \<in> set (map (getTemplate T0) (Pokedex T0)).
      tier mon \<noteq> ''Illegal'' \<and>
      (tier mon = ''CAP'' \<longrightarrow> ''cap'' \<in> set (members (tiers q_fire_ou))) \<and>
      (\<forall>c \<in> set (pending q_fire_ou). satisfies T0 q_fire_ou c mon)} =
     {getTemplate T0 ''charizard''}"
proof -
  have h1: "classify_all T0 C0 (split_comma ''fire type, ou'') empty_query = Inr q_fire_ou"
    by code_simp
  have h2: "ordinary_names T0" by code_simp
  have h3: "pending q_fire_ou \<noteq> []" by code_simp
  have s: "search T0 (count q_fire_ou) q_fire_ou None = Inr (Some [getTemplate T0 ''charizard''])"
    by code_simp
  from search_applies_each_category [OF h1 h2 h3, THEN conjunct2, THEN conjunct2, rule_format, OF s]
  have "{mon \<in> set (map (getTemplate T0) (Pokedex T0)).
      tier mon \<noteq> ''Illegal'' \<and>
      (tier mon = ''CAP'' \<longrightarrow> ''cap'' \<in> set (members (tiers q_fire_ou))) \<and>
      (\<forall>c \<in> set (pending q_fire_ou). satisfies T0 q_fire_ou c mon)} =
     set [getTemplate T0 ''charizard'']"
    by auto
  with s show ?thesis by simp
qed













section \<open>Properties of learn\<close>

lemma join_Cons: "join (d # ds) sep = d @ concat (map (\<lambda>x. sep @ x) ds)"
  by (induction ds arbitrary: d) simp_all

text \<open>The sources that continue a run, the run having shown \<open>c\<close> entries after its first.\<close>

lemma continue_shown:
  assumes "\<forall>x \<in> set xs. take 2 x = p" and "0 \<le> c"
  shows "list_sources all tmpl (xs @ rest) (Some (p, c)) b =
           list_sources all tmpl rest (Some (p, c + int (length xs)))
             (b @ concat (map (\<lambda>d. '', '' @ d)
                     (if all then map (drop 2) xs else take (nat (3 - c)) (map (drop 2) xs))) @
                  (if \<not> all \<and> c \<le> 3 \<and> 3 - c < int (length xs) then '', ...'' else []))"
  using assms
proof (induction xs arbitrary: c b)
  case Nil
  then show ?case by auto
next
  case (Cons x xs)
  have p: "take 2 x = p" and ps: "\<forall>x \<in> set xs. take 2 x = p" using Cons.prems(1) by simp_all
  have c1: "0 \<le> c + 1" using Cons.prems(2) by simp
  note ih = Cons.IH [OF ps c1]
  consider (all) "all" | (few) "\<not> all" "c < 3" | (three) "\<not> all" "c = 3" | (more) "\<not> all" "3 < c"
    by linarith
  then show ?case
  proof cases
    case all
    then show ?thesis using p ih Cons.prems(2) by (simp add: continue_run_def add.assoc)
  next
    case few
    then have "nat (3 - c) = Suc (nat (3 - (c + 1)))" by simp
    with few show ?thesis using p ih Cons.prems(2)
      by (simp add: continue_run_def add.assoc) 
  next
    case three
    then show ?thesis using p ih Cons.prems(2) by (simp add: continue_run_def add.assoc)
  next
    case more
    then show ?thesis using p ih Cons.prems(2) by (simp add: continue_run_def add.assoc)
  qed
qed

lemma list_sources_new_run:
  assumes "prev = None \<or> fst (the prev) \<noteq> take 2 s"
  shows "list_sources all tmpl (s # rest) prev b =
           list_sources all tmpl rest (Some (take 2 s, if drop 2 s \<noteq> [] then 0 else - 1))
             (start_run tmpl s b)"
  using assms by (cases prev) auto

lemma start_run_title:
  "start_run tmpl s b =
     b @ run_title tmpl (s # ss) @ (if drop 2 s \<noteq> [] then '': '' @ drop 2 s else [])"
  by (simp add: start_run_def Let_def)

lemma take_four: "take 4 (d # ds) = d # take 3 ds"
  by (simp add: take_Cons')

lemma render_run_detail:
  "drop 2 s \<noteq> [] \<Longrightarrow>
   render_run 4 all tmpl (s # xs) =
     run_title tmpl (s # xs) @ '': '' @ drop 2 s @
     concat (map (\<lambda>d. '', '' @ d) (if all then map (drop 2) xs else take 3 (map (drop 2) xs))) @
     (if \<not> all \<and> 3 < length xs then '', ...'' else [])"
  by (simp add: render_run_def join_Cons take_four del: run_title.simps)

lemma render_run_bare:
  "drop 2 s = [] \<Longrightarrow> render_run 4 all tmpl [s] = run_title tmpl [s]"
  by (simp add: render_run_def del: run_title.simps)

lemma render_run_bare_Cons:
  "drop 2 s = [] \<Longrightarrow>
   render_run 4 all tmpl (s # x # ys) =
     run_title tmpl (s # x # ys) @ '': '' @ drop 2 x @
     concat (map (\<lambda>d. '', '' @ d) (if all then map (drop 2) ys else take 3 (map (drop 2) ys))) @
     (if \<not> all \<and> 3 < length ys then '', ...'' else [])"
  by (simp add: render_run_def join_Cons take_four del: run_title.simps)

lemma continue_from_zero:
  assumes "\<forall>x \<in> set xs. take 2 x = p"
  shows "list_sources all tmpl (xs @ rest) (Some (p, 0)) b =
           list_sources all tmpl rest (Some (p, int (length xs)))
             (b @ concat (map (\<lambda>d. '', '' @ d)
                     (if all then map (drop 2) xs else take 3 (map (drop 2) xs))) @
                  (if \<not> all \<and> 3 < length xs then '', ...'' else []))"
  using continue_shown [OF assms, of 0 all tmpl rest b] by simp

lemma one_run:
  assumes "prev = None \<or> fst (the prev) \<noteq> take 2 s"
    and "\<forall>x \<in> set xs. take 2 x = take 2 s"
  shows "\<exists>c. list_sources all tmpl (s # xs @ rest) prev b =
              list_sources all tmpl rest (Some (take 2 s, c))
                (b @ render_run 4 all tmpl (s # xs))"
proof (cases "drop 2 s = []")
  case False
  have "list_sources all tmpl (s # xs @ rest) prev b =
          list_sources all tmpl (xs @ rest) (Some (take 2 s, 0)) (start_run tmpl s b)"
    using list_sources_new_run [OF assms(1)] False by simp
  also have "\<dots> = list_sources all tmpl rest (Some (take 2 s, int (length xs)))
             (start_run tmpl s b @ concat (map (\<lambda>d. '', '' @ d)
                     (if all then map (drop 2) xs else take 3 (map (drop 2) xs))) @
                  (if \<not> all \<and> 3 < length xs then '', ...'' else []))"
    by (rule continue_from_zero [OF assms(2)])
  also have "start_run tmpl s b @ concat (map (\<lambda>d. '', '' @ d)
                     (if all then map (drop 2) xs else take 3 (map (drop 2) xs))) @
                  (if \<not> all \<and> 3 < length xs then '', ...'' else []) =
             b @ render_run 4 all tmpl (s # xs)"
    using False
    by (simp add: start_run_title [of tmpl s b xs] render_run_detail [OF False]
          del: run_title.simps)
  finally show ?thesis by blast
next
  case True
  show ?thesis
  proof (cases xs)
    case Nil
    have "list_sources all tmpl (s # xs @ rest) prev b =
            list_sources all tmpl rest (Some (take 2 s, - 1)) (start_run tmpl s b)"
      using list_sources_new_run [OF assms(1)] True Nil by simp
    moreover have "start_run tmpl s b = b @ render_run 4 all tmpl (s # xs)"
      using True Nil
      by (simp add: start_run_title [of tmpl s b "[]"] render_run_bare del: run_title.simps)
    ultimately show ?thesis by metis
  next
    case (Cons x ys)
    have px: "take 2 x = take 2 s" and pys: "\<forall>x \<in> set ys. take 2 x = take 2 s"
      using assms(2) Cons by simp_all
    have "list_sources all tmpl (s # xs @ rest) prev b =
            list_sources all tmpl (x # ys @ rest) (Some (take 2 s, - 1)) (start_run tmpl s b)"
      using list_sources_new_run [OF assms(1)] True Cons by simp
    also have "\<dots> = list_sources all tmpl (ys @ rest) (Some (take 2 s, 0))
                       (start_run tmpl s b @ '': '' @ drop 2 x)"
      using px by (simp add: continue_run_def)
    also have "\<dots> = list_sources all tmpl rest (Some (take 2 s, int (length ys)))
             ((start_run tmpl s b @ '': '' @ drop 2 x) @ concat (map (\<lambda>d. '', '' @ d)
                     (if all then map (drop 2) ys else take 3 (map (drop 2) ys))) @
                  (if \<not> all \<and> 3 < length ys then '', ...'' else []))"
      by (rule continue_from_zero [OF pys])
    also have "(start_run tmpl s b @ '': '' @ drop 2 x) @ concat (map (\<lambda>d. '', '' @ d)
                     (if all then map (drop 2) ys else take 3 (map (drop 2) ys))) @
                  (if \<not> all \<and> 3 < length ys then '', ...'' else []) =
             b @ render_run 4 all tmpl (s # xs)"
      using True
      by (simp add: start_run_title [of tmpl s b "x # ys"] render_run_bare_Cons Cons
            del: run_title.simps)
    finally show ?thesis by blast
  qed
qed

lemma list_sources_runs:
  "prev = None \<or> srcs = [] \<or> fst (the prev) \<noteq> take 2 (hd srcs) \<Longrightarrow>
   list_sources all tmpl srcs prev b = b @ concat (map (render_run 4 all tmpl) (runs srcs))"
proof (induction srcs arbitrary: prev b rule: runs.induct)
  case 1
  then show ?case by simp
next
  case (2 s ss)
  let ?P = "\<lambda>x. take 2 x = take 2 s"
  have p: "prev = None \<or> fst (the prev) \<noteq> take 2 s" using "2.prems" by simp
  have t: "\<forall>x \<in> set (takeWhile ?P ss). take 2 x = take 2 s"
    using set_takeWhileD by fastforce
  from one_run [OF p t, of all tmpl "dropWhile ?P ss" b]
  obtain c where "list_sources all tmpl (s # ss) prev b =
              list_sources all tmpl (dropWhile ?P ss) (Some (take 2 s, c))
                (b @ render_run 4 all tmpl (s # takeWhile ?P ss))"
    by auto
  moreover have "Some (take 2 s, c) = None \<or> dropWhile ?P ss = [] \<or>
                 fst (the (Some (take 2 s, c))) \<noteq> take 2 (hd (dropWhile ?P ss))"
  proof (cases "dropWhile ?P ss = []")
    case True
    then show ?thesis by simp
  next
    case False
    from hd_dropWhile [OF False] show ?thesis by auto
  qed
  ultimately show ?case using "2.IH" by simp
qed

lemma check_targets_append:
  "check_targets T tmpl (xs @ ys) e l False =
     (case check_targets T tmpl xs e l False of
        Inl r \<Rightarrow> Inl r
      | Inr (mv, pr, l') \<Rightarrow>
          if pr then Inr (mv, pr, l') else check_targets T tmpl ys mv l' False)"
proof (induction xs arbitrary: e l)
  case Nil
  then show ?case by simp
next
  case (Cons x xs)
  show ?case
  proof (cases "exists (getMove T x)")
    case False
    then show ?thesis by (simp add: Let_def)
  next
    case True
    obtain pr l' where c: "checkLearnset T (getMove T x) tmpl l = (pr, l')"
      by (cases "checkLearnset T (getMove T x) tmpl l")
    show ?thesis
    proof (cases pr)
      case True
      with \<open>exists (getMove T x)\<close> c show ?thesis by (simp add: Let_def)
    next
      case False
      with \<open>exists (getMove T x)\<close> c Cons.IH [of "getMove T x" l'] show ?thesis
        by (simp add: Let_def)
    qed
  qed
qed

lemma check_targets_unknown:
  assumes "check_targets T tmpl pre e l False = Inr (mv, False, l1)"
    and "\<not> exists (getMove T m)"
  shows "check_targets T tmpl (pre @ m # post) e l False = Inl (SendReply (move_not_found (getMove T m)))"
  using assms by (simp add: check_targets_append Let_def)

lemma check_targets_problem:
  assumes "check_targets T tmpl pre e l False = Inr (mv, False, l1)"
    and "exists (getMove T m)" and "fst (checkLearnset T (getMove T m) tmpl l1)"
  shows "check_targets T tmpl (pre @ m # post) e l False =
           Inr (getMove T m, True, snd (checkLearnset T (getMove T m) tmpl l1))"
proof -
  obtain pr l' where c: "checkLearnset T (getMove T m) tmpl l1 = (pr, l')"
    by (cases "checkLearnset T (getMove T m) tmpl l1")
  with assms(3) have "pr" by simp
  with assms(1,2) c show ?thesis by (simp add: check_targets_append Let_def)
qed

lemma learn_unfold:
  assumes "target \<noteq> []" and "canBroadcast C" and "split_comma target = sp # ms" and "ms \<noteq> []"
    and "exists (getTemplate T sp)"
  shows "learn T C cmd target =
           (case check_targets T (getTemplate T sp) ms empty_object (start_lsetData cmd) False of
              Inl r \<Rightarrow> r
            | Inr (move, problem, lset) \<Rightarrow>
                SendReplyBox (learn_buffer (cmd = ''learnall'') (getTemplate T sp)
                                (Suc (length ms)) move problem lset))"
proof -
  have "\<not> length (sp # ms) < 2" using assms(4) by (cases ms) simp_all
  then show ?thesis using assms
    by (auto simp add: learn_def Let_def split: sum.splits prod.splits)
qed

text \<open>
  C9 (as stated). Surf comes with five event sources of generation 5: the reply lists
  four of them before the ellipsis, not three. And in \<open>squirtle, fly, zzz\<close> the name
  \<open>zzz\<close> is no move, yet the command does not answer with the lookup error: Fly, which
  comes first, cannot be learnt, and the loop stops there.
\<close>

theorem learn_counterexample:
  "learn T9 C0 ''learn'' ''squirtle, surf'' =
     SendReplyBox (''Squirtle'' @ can_learn @ ''Surf'' @ list_open @
                   ''<li>gen 4 egg<li>gen 5 event: a, b, c, d, ...</ul>'') \<and>
   \<not> exists (getMove T9 '' zzz'') \<and>
   learn T9 C0 ''learn'' ''squirtle, fly, zzz'' =
     SendReplyBox (''Squirtle'' @ cannot_learn @ ''these moves'')"
  by code_simp

text \<open>
  C9 (amended). For a species that exists and at least one move: the moves are looked up
  and checked in their order, each check with the legality data the checks before have
  left. If the moves before \<open>m\<close> are known and raise no problem, then an \<open>m\<close> that is
  no known move makes the command answer with the lookup error naming it, and an \<open>m\<close>
  that cannot be learnt ends the checks with the reply that the species can't learn the
  move (or "these moves" when several were given). When no move raises a problem and the
  engine has left sources, the reply lists them sorted, run by run, and a run shows at
  most four details followed by an ellipsis, all of them with \<open>learnall\<close>.
\<close>

theorem learn_reply:
  assumes "target \<noteq> []" and "canBroadcast C" and "split_comma target = sp # ms" and "ms \<noteq> []"
    and "exists (getTemplate T sp)" and "tmpl = getTemplate T sp"
  shows "(\<forall>pre m post mv l1.
            ms = pre @ m # post \<and>
            check_targets T tmpl pre empty_object (start_lsetData cmd) False = Inr (mv, False, l1) \<and>
            \<not> exists (getMove T m) \<longrightarrow>
            learn T C cmd target = SendReply (move_not_found (getMove T m))) \<and>
         (\<forall>pre m post mv l1.
            ms = pre @ m # post \<and>
            check_targets T tmpl pre empty_object (start_lsetData cmd) False = Inr (mv, False, l1) \<and>
            exists (getMove T m) \<and> fst (checkLearnset T (getMove T m) tmpl l1) \<longrightarrow>
            learn T C cmd target =
              SendReplyBox (name tmpl @ cannot_learn @
                            (if 1 < length ms then ''these moves'' else name (getMove T m)))) \<and>
         (\<forall>mv lset srcs.
            check_targets T tmpl ms empty_object (start_lsetData cmd) False = Inr (mv, False, lset) \<and>
            sources lset = Some srcs \<longrightarrow>
            learn T C cmd target =
              SendReplyBox (name tmpl @ can_learn @
                            (if 1 < length ms then ''these moves'' else name mv) @ list_open @
                            concat (map (render_run 4 (cmd = ''learnall'') tmpl) (runs (sort srcs))) @
                            (if sourcesBefore lset \<noteq> 0
                             then ''<li>any generation before '' @ show_nat (sourcesBefore lset + 1)
                             else []) @
                            ''</ul>''))"
proof (intro conjI allI impI)
  note u = learn_unfold [OF assms(1-5), of cmd, folded assms(6)]
  {
    fix pre m post mv l1
    assume a: "ms = pre @ m # post \<and>
            check_targets T tmpl pre empty_object (start_lsetData cmd) False = Inr (mv, False, l1) \<and>
            \<not> exists (getMove T m)"
    then have "check_targets T tmpl ms empty_object (start_lsetData cmd) False =
                 Inl (SendReply (move_not_found (getMove T m)))"
      using check_targets_unknown by simp
    then show "learn T C cmd target = SendReply (move_not_found (getMove T m))"
      using u by simp
  }
  {
    fix pre m post mv l1
    assume a: "ms = pre @ m # post \<and>
            check_targets T tmpl pre empty_object (start_lsetData cmd) False = Inr (mv, False, l1) \<and>
            exists (getMove T m) \<and> fst (checkLearnset T (getMove T m) tmpl l1)"
    then have "check_targets T tmpl ms empty_object (start_lsetData cmd) False =
                 Inr (getMove T m, True, snd (checkLearnset T (getMove T m) tmpl l1))"
      using check_targets_problem by simp
    then show "learn T C cmd target =
              SendReplyBox (name tmpl @ cannot_learn @
                            (if 1 < length ms then ''these moves'' else name (getMove T m)))"
      using u by (simp add: learn_buffer_def)
  }
  {
    fix mv lset srcs
    assume a: "check_targets T tmpl ms empty_object (start_lsetData cmd) False =
                 Inr (mv, False, lset) \<and> sources lset = Some srcs"
    have r: "list_sources all tmpl (sort srcs) None b =
               b @ concat (map (render_run 4 all tmpl) (runs (sort srcs)))" for all b
      by (rule list_sources_runs) simp
    from a show "learn T C cmd target =
              SendReplyBox (name tmpl @ can_learn @
                            (if 1 < length ms then ''these moves'' else name mv) @ list_open @
                            concat (map (render_run 4 (cmd = ''learnall'') tmpl) (runs (sort srcs))) @
                            (if sourcesBefore lset \<noteq> 0
                             then ''<li>any generation before '' @ show_nat (sourcesBefore lset + 1)
                             else []) @
                            ''</ul>'')"
      using u by (simp add: learn_buffer_def r Let_def)
  }
qed

theorem learn_reply_witness:
  "learn T9 C0 ''learn'' ''squirtle, zzz'' = SendReply (move_not_found (getMove T9 '' zzz'')) \<and>
   learn T9 C0 ''learn'' ''squirtle, fly'' = SendReplyBox (''Squirtle'' @ cannot_learn @ ''Fly'') \<and>
   learn T9 C0 ''learn'' ''squirtle, surf'' =
     SendReplyBox (''Squirtle'' @ can_learn @ ''Surf'' @ list_open @
                   ''<li>gen 4 egg<li>gen 5 event: a, b, c, d, ...</ul>'')"
proof -
  have c: "canBroadcast C0" by code_simp
  have t: "exists (getTemplate T9 ''squirtle'')" by code_simp
  have n: "name (getTemplate T9 ''squirtle'') = ''Squirtle''" by code_simp
  have s1: "split_comma ''squirtle, zzz'' = ''squirtle'' # ['' zzz'']" by code_simp
  have s2: "split_comma ''squirtle, fly'' = ''squirtle'' # ['' fly'']" by code_simp
  have s3: "split_comma ''squirtle, surf'' = ''squirtle'' # ['' surf'']" by code_simp
  have a1: "['' zzz''] = [] @ '' zzz'' # [] \<and>
            check_targets T9 (getTemplate T9 ''squirtle'') [] empty_object (start_lsetData ''learn'')
              False = Inr (empty_object, False, start_lsetData ''learn'') \<and>
            \<not> exists (getMove T9 '' zzz'')"
    by code_simp
  have a2: "['' fly''] = [] @ '' fly'' # [] \<and>
            check_targets T9 (getTemplate T9 ''squirtle'') [] empty_object (start_lsetData ''learn'')
              False = Inr (empty_object, False, start_lsetData ''learn'') \<and>
            exists (getMove T9 '' fly'') \<and>
            fst (checkLearnset T9 (getMove T9 '' fly'') (getTemplate T9 ''squirtle'')
                   (start_lsetData ''learn''))"
    by code_simp
  have a3: "check_targets T9 (getTemplate T9 ''squirtle'') ['' surf''] empty_object
              (start_lsetData ''learn'') False =
              Inr (getMove T9 '' surf'', False,
                   (start_lsetData ''learn'')
                     \<lparr>sources := Some [''5Se'', ''5Sa'', ''4E'', ''5Sc'', ''5Sb'', ''5Sd'']\<rparr>) \<and>
            sources ((start_lsetData ''learn'')
                     \<lparr>sources := Some [''5Se'', ''5Sa'', ''4E'', ''5Sc'', ''5Sb'', ''5Sd'']\<rparr>) =
              Some [''5Se'', ''5Sa'', ''4E'', ''5Sc'', ''5Sb'', ''5Sd'']"
    by code_simp
  have e2: "name (getMove T9 '' fly'') = ''Fly''" by code_simp
  have e3: "name (getMove T9 '' surf'') = ''Surf''"
    "sourcesBefore ((start_lsetData ''learn'')
                     \<lparr>sources := Some [''5Se'', ''5Sa'', ''4E'', ''5Sc'', ''5Sb'', ''5Sd'']\<rparr>) = 0"
    "concat (map (render_run 4 (''learn'' = ''learnall'') (getTemplate T9 ''squirtle''))
       (runs (sort [''5Se'', ''5Sa'', ''4E'', ''5Sc'', ''5Sb'', ''5Sd'']))) =
       ''<li>gen 4 egg<li>gen 5 event: a, b, c, d, ...''"
    by code_simp+
  have 1: "learn T9 C0 ''learn'' ''squirtle, zzz'' = SendReply (move_not_found (getMove T9 '' zzz''))"
    using learn_reply [OF _ c s1 _ t refl, of "''learn''", THEN conjunct1, rule_format, OF _ _ a1]
    by simp
  have 2: "learn T9 C0 ''learn'' ''squirtle, fly'' = SendReplyBox (''Squirtle'' @ cannot_learn @ ''Fly'')"
    using learn_reply [OF _ c s2 _ t refl, of "''learn''", THEN conjunct2, THEN conjunct1,
        rule_format, OF _ _ a2]
    by (simp add: n e2)
  have 3: "learn T9 C0 ''learn'' ''squirtle, surf'' =
     SendReplyBox (''Squirtle'' @ can_learn @ ''Surf'' @ list_open @
                   ''<li>gen 4 egg<li>gen 5 event: a, b, c, d, ...</ul>'')"
    using learn_reply [OF _ c s3 _ t refl, of "''learn''", THEN conjunct2, THEN conjunct2,
        rule_format, OF _ _ a3, unfolded n e3]
    by simp
  from 1 2 3 show ?thesis by simp
qed

end
